theory Spec2Isabelle
  imports Main
begin

section \<open>JavaScript values and strings\<close>

text \<open>
  A JavaScript string is modelled as a \<open>string\<close>: a list of code units, restricted to
  the code units below 256. A value of TypeScript's type \<open>any\<close> is one of the
  alternatives below; an object is the list of its own enumerable properties. A number
  \<open>Num i\<close> is an integer that JavaScript holds exactly: \<open>i\<close> is meant to lie
  between \<open>- (2 ^ 53 - 1)\<close> and \<open>2 ^ 53 - 1\<close>. The numbers of the code modelled
  here are a status code, an index of a list and the length of a buffer.
\<close>

datatype any = Undefined | Null | Bool bool | Num int | Str string | Obj "(string \<times> any) list"

text \<open>What a \<open>throw\<close> carries. A \<open>TypeError\<close> is what the runtime raises itself.\<close>

datatype error = TypeError string | Thrown any

text \<open>
  \<open>Number.prototype.toString\<close> on such an integer: decimal digits, a minus sign
  first. (JavaScript writes a number with an exponent only from \<open>10 ^ 21\<close> on, which is
  outside the range of \<open>Num\<close>.)
\<close>

fun nat_toString :: "nat \<Rightarrow> string" where
  "nat_toString n =
     (if n < 10 then [char_of (48 + n)]
      else nat_toString (n div 10) @ [char_of (48 + n mod 10)])"

declare nat_toString.simps [simp del]

definition int_toString :: "int \<Rightarrow> string" where
  "int_toString i = (if i < 0 then CHR ''-'' # nat_toString (nat (- i)) else nat_toString (nat i))"

text \<open>
  \<open>String.prototype.toLowerCase\<close> and \<open>String.prototype.trim\<close> on code units below
  256: the upper-case letters are A to Z and the Latin-1 letters 0xC0 to 0xDE other than
  0xD7; white space is tab, line feed, vertical tab, form feed, carriage return, space
  and the no-break space 0xA0.
\<close>

definition toLowerCase_char :: "char \<Rightarrow> char" where
  "toLowerCase_char c =
     (let n = (of_char c :: nat) in
      if (65 \<le> n \<and> n \<le> 90) \<or> (192 \<le> n \<and> n \<le> 222 \<and> n \<noteq> 215) then char_of (n + 32) else c)"

definition toLowerCase :: "string \<Rightarrow> string" where
  "toLowerCase s = map toLowerCase_char s"

definition isWhiteSpace :: "char \<Rightarrow> bool" where
  "isWhiteSpace c = ((of_char c :: nat) \<in> {9, 10, 11, 12, 13, 32, 160})"

definition trim :: "string \<Rightarrow> string" where
  "trim s = rev (dropWhile isWhiteSpace (rev (dropWhile isWhiteSpace s)))"

text \<open>
  The abstract operations \<open>ToString\<close> and \<open>ToBoolean\<close> of the language, the first
  for a number in the range of \<open>Num\<close>. A value is truthy when \<open>ToBoolean\<close> gives
  \<open>true\<close>.
\<close>

fun ToString :: "any \<Rightarrow> string" where
  "ToString Undefined = ''undefined''"
| "ToString Null = ''null''"
| "ToString (Bool b) = (if b then ''true'' else ''false'')"
| "ToString (Num i) = int_toString i"
| "ToString (Str s) = s"
| "ToString (Obj kvs) = ''[object Object]''"

fun truthy :: "any \<Rightarrow> bool" where
  "truthy Undefined = False"
| "truthy Null = False"
| "truthy (Bool b) = b"
| "truthy (Num i) = (i \<noteq> 0)"
| "truthy (Str s) = (s \<noteq> [])"
| "truthy (Obj kvs) = True"

section \<open>The HTTP plugin: classifying the response\<close>

text \<open>
  The callback of \<open>HTTP.request\<close> in \<open>HttpPlugin.deployFile\<close>. The result is the
  argument of the one call of \<open>completed\<close> the callback makes: \<open>None\<close> for
  \<open>completed()\<close>, \<open>Some msg\<close> for \<open>completed(new Error(msg))\<close>. The tests are
  in the order of the source, each one returning.
\<close>

definition quoted :: "string \<Rightarrow> string" where
  "quoted s = [CHR 0x27] @ s @ [CHR 0x27]"

definition onResponse :: "int \<Rightarrow> string \<Rightarrow> string option" where
  "onResponse statusCode statusMessage =
     (if \<not> (statusCode > 199 \<and> statusCode < 300) then
        Some (''No success: ['' @ int_toString statusCode @ ''] '' @ quoted statusMessage)
      else if statusCode > 399 \<and> statusCode < 500 then
        Some (''Client error: ['' @ int_toString statusCode @ ''] '' @ quoted statusMessage)
      else if statusCode > 499 \<and> statusCode < 600 then
        Some (''Server error: ['' @ int_toString statusCode @ ''] '' @ quoted statusMessage)
      else if statusCode > 599 then
        Some (''Error: ['' @ int_toString statusCode @ ''] '' @ quoted statusMessage)
      else None)"

section \<open>The helpers that are not in this file\<close>

text \<open>
  \<open>values.ts\<close> calls functions of the module \<open>deploy_helpers\<close>, whose source is
  not part of the files verified here. They are parameters of the model: every
  definition below that calls one takes the record of them as its first argument, and
  a theorem says which of their properties it needs.
\<close>

record helpers =
  toStringSafe :: "any \<Rightarrow> string"
  normalizeString :: "any \<Rightarrow> string"
  isEmptyString :: "any \<Rightarrow> bool"

text \<open>
  Modelled from the spec: \<open>deploy_helpers.isNullOrUndefined\<close> is missing from the
  sources; the spec says that \<open>null\<close> and \<open>undefined\<close> pass through
  \<open>replaceWithValues\<close> unchanged.
\<close>

definition isNullOrUndefined :: "any \<Rightarrow> bool" where
  "isNullOrUndefined val = (val = Null \<or> val = Undefined)"

text \<open>
  Modelled from the spec: the functions of \<open>deploy_helpers\<close> are missing from the
  sources. The spec says that a value is stringified and that names and type tags are
  normalized for case and white space. This instance of the helpers follows it
  (\<open>null\<close> and \<open>undefined\<close> give the empty string); it is what the concrete
  examples below are evaluated with.
\<close>

definition std_toStringSafe :: "any \<Rightarrow> string" where
  "std_toStringSafe val = (if isNullOrUndefined val then [] else ToString val)"

definition std_helpers :: helpers where
  "std_helpers =
     \<lparr> toStringSafe = std_toStringSafe,
       normalizeString = (\<lambda>val. trim (toLowerCase (std_toStringSafe val))),
       isEmptyString = (\<lambda>val. trim (std_toStringSafe val) = []) \<rparr>"

section \<open>Values as the substitution sees them\<close>

text \<open>
  \<open>replaceWithValues\<close> reads two getters of each value object: \<open>name\<close> and
  \<open>value\<close> (the interface \<open>ObjectWithNameAndValue\<close> that \<open>ValueBase\<close>
  implements). The \<open>value\<close> getter of a Code, File or Script value runs arbitrary
  code: it may throw and it may change the state of the process, \<open>'w\<close>. So it
  is a function from the state to the outcome (\<open>Inl\<close> what was thrown, \<open>Inr\<close>
  what was returned) and the state after.
\<close>

record 'w ObjectWithNameAndValue =
  get_name :: any
  get_value :: "'w \<Rightarrow> (error + any) \<times> 'w"

section \<open>The regular expression of replaceWithValues\<close>

text \<open>
  \<open>/(\$)(\{)([^\}]*)(\})/gm\<close> at the start of a string: a dollar sign, an opening
  brace, the longest run of characters other than a closing brace, a closing brace. It
  matches iff a closing brace follows somewhere; the third group is what stands before
  the first one. The result is that group and the rest of the string after the match.
\<close>

definition not_closing :: "char \<Rightarrow> bool" where
  "not_closing c = (c \<noteq> CHR ''}'')"

fun match_placeholder :: "string \<Rightarrow> (string \<times> string) option" where
  "match_placeholder (c1 # c2 # r) =
     (if c1 = CHR ''$'' \<and> c2 = CHR ''{'' \<and> CHR ''}'' \<in> set r
      then Some (takeWhile not_closing r, tl (dropWhile not_closing r))
      else None)"
| "match_placeholder _ = None"

text \<open>
  A global replace first collects the matches, left to right, each search starting
  where the last match ended; a character at which nothing matches is kept as it is.
\<close>

datatype piece = Text char | Placeholder string

function scan :: "string \<Rightarrow> piece list" where
  "scan [] = []"
| "scan (c # cs) =
     (case match_placeholder (c # cs) of
        Some (varName, rest) \<Rightarrow> Placeholder varName # scan rest
      | None \<Rightarrow> Text c # scan cs)"
  by pat_completeness auto
termination
proof -
  have shorter: "length rest < length s"
    if m: "match_placeholder s = Some (varName, rest)" for s varName rest
  proof (cases s rule: match_placeholder.cases)
    case (1 c1 c2 r)
    have "length (dropWhile not_closing r) \<le> length r"
      by (rule length_dropWhile_le)
    with 1 m show ?thesis
      by (auto split: if_splits)
  qed (use m in simp_all)
  show ?thesis
    by (relation "measure length") (auto dest: shorter)
qed

text \<open>The text a piece was matched from: \<open>match\<close>, the first argument of a replacer.\<close>

definition matched :: "string \<Rightarrow> string" where
  "matched varName = ''${'' @ varName @ ''}''"

text \<open>
  Then the replacer function is called once per match, in order, with the matched text
  and the groups (only the third, \<open>varName\<close>, is read); what it returns stands for
  the match in the result. A replacer that throws ends the whole \<open>replace\<close>.
\<close>

fun replace_pieces ::
  "(string \<Rightarrow> string \<Rightarrow> 'w \<Rightarrow> (error + string) \<times> 'w) \<Rightarrow> piece list \<Rightarrow> 'w \<Rightarrow> (error + string) \<times> 'w" where
  "replace_pieces f [] w = (Inr [], w)"
| "replace_pieces f (Text c # ps) w =
     (case replace_pieces f ps w of
        (Inl e, w') \<Rightarrow> (Inl e, w')
      | (Inr r, w') \<Rightarrow> (Inr (c # r), w'))"
| "replace_pieces f (Placeholder varName # ps) w =
     (case f (matched varName) varName w of
        (Inl e, w') \<Rightarrow> (Inl e, w')
      | (Inr t, w') \<Rightarrow>
          (case replace_pieces f ps w' of
             (Inl e, w'') \<Rightarrow> (Inl e, w'')
           | (Inr r, w'') \<Rightarrow> (Inr (t @ r), w'')))"

definition String_replace ::
  "(string \<Rightarrow> string \<Rightarrow> 'w \<Rightarrow> (error + string) \<times> 'w) \<Rightarrow> string \<Rightarrow> 'w \<Rightarrow> (error + string) \<times> 'w" where
  "String_replace f str w = replace_pieces f (scan str) w"

section \<open>replaceWithValues\<close>

text \<open>
  The replacer of \<open>replaceWithValues\<close> for the value \<open>v\<close>, whose normalized name
  is \<open>vn\<close>. The \<open>try\<close> block holds the read of \<open>v.value\<close>; its \<open>catch\<close> is empty,
  so what was thrown is dropped and \<open>newValue\<close> is still the matched text.
\<close>

definition replacer ::
  "helpers \<Rightarrow> 'w ObjectWithNameAndValue \<Rightarrow> string \<Rightarrow> string \<Rightarrow> string \<Rightarrow> 'w \<Rightarrow> (error + string) \<times> 'w" where
  "replacer h v vn match varName w =
     (let newValue = match in
      if normalizeString h (Str varName) = vn then
        (case get_value v w of
           (Inr r, w') \<Rightarrow> (Inr (toStringSafe h r), w')
         | (Inl e, w') \<Rightarrow> (Inr newValue, w'))
      else (Inr newValue, w))"

text \<open>\<open>allValues.forEach\<close>: one \<open>str.replace\<close> per value, in the order of the list.\<close>

fun forEach_values ::
  "helpers \<Rightarrow> 'w ObjectWithNameAndValue list \<Rightarrow> string \<Rightarrow> 'w \<Rightarrow> (error + string) \<times> 'w" where
  "forEach_values h [] str w = (Inr str, w)"
| "forEach_values h (v # vs) str w =
     (let vn = normalizeString h (get_name v) in
      case String_replace (replacer h v vn) str w of
        (Inl e, w') \<Rightarrow> (Inl e, w')
      | (Inr str', w') \<Rightarrow> forEach_values h vs str' w')"

text \<open>
  \<open>replaceWithValues(values, val)\<close>. The list \<open>allValues\<close> is \<open>values\<close> as a list
  without its falsy entries; a list of value objects has none.
\<close>

definition replaceWithValues ::
  "helpers \<Rightarrow> 'w ObjectWithNameAndValue list \<Rightarrow> any \<Rightarrow> 'w \<Rightarrow> (error + any) \<times> 'w" where
  "replaceWithValues h allValues val w =
     (if \<not> isNullOrUndefined val then
        (case forEach_values h allValues (toStringSafe h val) w of
           (Inl e, w') \<Rightarrow> (Inl e, w')
         | (Inr str, w') \<Rightarrow> (Inr (Str str), w'))
      else (Inr val, w))"

text \<open>
  Every substring \<open>${name}\<close> of a string, \<open>name\<close> without a closing brace: the names,
  by where the substring starts. (The matches that \<open>scan\<close> finds are among them.)
\<close>

fun placeholders :: "string \<Rightarrow> string list" where
  "placeholders [] = []"
| "placeholders (c # cs) =
     (case match_placeholder (c # cs) of
        Some (varName, rest) \<Rightarrow> varName # placeholders cs
      | None \<Rightarrow> placeholders cs)"

section \<open>Value definitions and value objects\<close>

text \<open>
  An entry of the configuration's \<open>values\<close> list (\<open>ValueWithName\<close> and its
  extensions in \<open>deploy_contracts\<close>), with the properties that the functions modelled
  here read. A property that is not set is \<open>Undefined\<close>.
\<close>

record ValueWithName =
  item_name :: any
  item_type :: any
  item_value :: any
  item_alias :: any
  item_script :: any
  item_options :: any

text \<open>The five classes that extend \<open>ValueBase\<close>.\<close>

datatype value_class = StaticValue | CodeValue | EnvValue | FileValue | ScriptValue

text \<open>
  The one function that is ever stored in \<open>otherValueProvider\<close>: the arrow function
  \<open>() => result.filter(x => x.id !== newValue.id)\<close> of \<open>toValueObjects\<close>. It has
  captured the array \<open>result\<close> and the object \<open>newValue\<close>, the very object it is
  stored in, and reads both when it is called.
\<close>

datatype provider = Result_without_newValue

text \<open>
  An instance of a class that extends \<open>ValueBase\<close>: the underlying item, the class,
  the fields \<open>id\<close> and \<open>otherValueProvider\<close> (not set by a constructor) and, for
  a \<open>ScriptValue\<close>, the configuration.
\<close>

record ValueBase =
  ITEM :: ValueWithName
  obj_class :: value_class
  obj_id :: any
  otherValueProvider :: "provider option"
  config :: any

text \<open>The constructor of \<open>ValueBase\<close>, which every subclass calls: an item is made up when none is given.\<close>

definition new_ValueBase :: "value_class \<Rightarrow> ValueWithName option \<Rightarrow> ValueBase" where
  "new_ValueBase c item =
     \<lparr> ITEM = (case item of
                 None \<Rightarrow> \<lparr> item_name = Undefined, item_type = Undefined, item_value = Undefined,
                            item_alias = Undefined, item_script = Undefined, item_options = Undefined \<rparr>
               | Some i \<Rightarrow> i),
       obj_class = c, obj_id = Undefined, otherValueProvider = None, config = Undefined \<rparr>"

definition new_ScriptValue :: "ValueWithName option \<Rightarrow> any \<Rightarrow> ValueBase" where
  "new_ScriptValue item cfg = (new_ValueBase ScriptValue item)\<lparr> config := cfg \<rparr>"

text \<open>
  The getter \<open>otherValues\<close>. The array that the provider has captured is an argument:
  \<open>result\<close> is what that array holds when the getter is read. Nothing the provider
  does can throw, and no entry of its result is falsy.
\<close>

definition call_provider :: "ValueBase list \<Rightarrow> ValueBase \<Rightarrow> provider \<Rightarrow> ValueBase list" where
  "call_provider result newValue ovp = filter (\<lambda>x. obj_id x \<noteq> obj_id newValue) result"

definition otherValues :: "ValueBase list \<Rightarrow> ValueBase \<Rightarrow> ValueBase list" where
  "otherValues result this =
     (case otherValueProvider this of
        None \<Rightarrow> []
      | Some ovp \<Rightarrow> [] @ call_provider result this ovp)"

section \<open>toValueObjects\<close>

text \<open>The \<open>switch\<close> over the normalized type tag; \<open>None\<close> when no case applies and \<open>newValue\<close> stays undefined.\<close>

definition switch_type :: "helpers \<Rightarrow> ValueWithName \<Rightarrow> any \<Rightarrow> ValueBase option" where
  "switch_type h i cfg =
     (let t = normalizeString h (item_type i) in
      if t = [] \<or> t = ''static'' then Some (new_ValueBase StaticValue (Some i))
      else if t = ''code'' then Some (new_ValueBase CodeValue (Some i))
      else if t = ''env'' \<or> t = ''environment'' then Some (new_ValueBase EnvValue (Some i))
      else if t = ''file'' then Some (new_ValueBase FileValue (Some i))
      else if t = ''script'' then Some (new_ScriptValue (Some i) cfg)
      else None)"

text \<open>
  The body of \<open>forEach((i, idx) => ...)\<close>, with the array \<open>result\<close> as it grows:
  \<open>idx\<close> counts every entry, the ones that give no value too.
\<close>

fun forEach_items :: "helpers \<Rightarrow> any \<Rightarrow> ValueWithName list \<Rightarrow> nat \<Rightarrow> ValueBase list \<Rightarrow> ValueBase list" where
  "forEach_items h cfg [] idx result = result"
| "forEach_items h cfg (i # items) idx result =
     (case switch_type h i cfg of
        None \<Rightarrow> forEach_items h cfg items (Suc idx) result
      | Some newValue \<Rightarrow>
          forEach_items h cfg items (Suc idx)
            (result @ [newValue\<lparr> obj_id := Num (int idx),
                                 otherValueProvider := Some Result_without_newValue \<rparr>]))"

text \<open>\<open>filter(i => i)\<close>: an entry of the list that is \<open>null\<close> or \<open>undefined\<close> is \<open>None\<close>.\<close>

fun filter_truthy :: "'a option list \<Rightarrow> 'a list" where
  "filter_truthy [] = []"
| "filter_truthy (None # xs) = filter_truthy xs"
| "filter_truthy (Some x # xs) = x # filter_truthy xs"

definition toValueObjects :: "helpers \<Rightarrow> ValueWithName option list \<Rightarrow> any \<Rightarrow> ValueBase list" where
  "toValueObjects h items cfg = forEach_items h cfg (filter_truthy items) 0 []"

section \<open>EnvValue\<close>

text \<open>
  The getters of \<open>EnvValue\<close>. \<open>process_env\<close> is \<open>process.env\<close>: the variables of the
  environment, in the order in which \<open>for ... in\<close> goes through them.
\<close>

definition ValueBase_name :: "ValueBase \<Rightarrow> any" where
  "ValueBase_name this = item_name (ITEM this)"

definition EnvValue_alias :: "ValueBase \<Rightarrow> any" where
  "EnvValue_alias this = item_alias (ITEM this)"

definition EnvValue_realName :: "ValueBase \<Rightarrow> any" where
  "EnvValue_realName this = ValueBase_name this"

definition EnvValue_name :: "helpers \<Rightarrow> ValueBase \<Rightarrow> any" where
  "EnvValue_name h this =
     (if isEmptyString h (EnvValue_alias this) then EnvValue_realName this else EnvValue_alias this)"

fun for_in_env :: "helpers \<Rightarrow> string \<Rightarrow> (string \<times> string) list \<Rightarrow> any" where
  "for_in_env h myName [] = Undefined"
| "for_in_env h myName ((p, x) # rest) =
     (if trim (toStringSafe h (Str p)) = myName then Str x else for_in_env h myName rest)"

definition EnvValue_value :: "helpers \<Rightarrow> (string \<times> string) list \<Rightarrow> ValueBase \<Rightarrow> any" where
  "EnvValue_value h process_env this =
     (let myName = trim (toStringSafe h (EnvValue_realName this)) in
      for_in_env h myName process_env)"

section \<open>The state of the module\<close>

text \<open>
  The two variables \<open>globalScriptValueState\<close> and \<open>scriptValueStates\<close> of the module,
  of type \<open>Object\<close>. Each holds \<open>undefined\<close> (\<open>None\<close>) or an object, the list of
  its properties. The record is extensible: a state of the process is any record that
  has these two fields.
\<close>

type_synonym js_object = "(string \<times> any) list"

record process_state =
  globalScriptValueState :: "js_object option"
  scriptValueStates :: "js_object option"

text \<open>Both are declared with \<open>let\<close> and no initializer: \<open>undefined\<close> when the module is loaded.\<close>

definition at_module_load :: process_state where
  "at_module_load = \<lparr> globalScriptValueState = None, scriptValueStates = None \<rparr>"

definition resetScriptStates :: "'m process_state_scheme \<Rightarrow> 'm process_state_scheme" where
  "resetScriptStates w = w\<lparr> globalScriptValueState := Some [], scriptValueStates := Some [] \<rparr>"

text \<open>
  \<open>obj[key]\<close> and \<open>obj[key] = newValue\<close> on the value of such a variable. On
  \<open>undefined\<close> both raise a \<open>TypeError\<close>. A property that is not there reads as
  \<open>undefined\<close>; a property that is there keeps its place when it is written.
\<close>

definition read_property :: "js_object option \<Rightarrow> string \<Rightarrow> error + any" where
  "read_property obj key =
     (case obj of
        None \<Rightarrow> Inl (TypeError ''Cannot read property of undefined'')
      | Some kvs \<Rightarrow> Inr (case map_of kvs key of None \<Rightarrow> Undefined | Some x \<Rightarrow> x))"

fun update_property :: "string \<Rightarrow> 'a \<Rightarrow> (string \<times> 'a) list \<Rightarrow> (string \<times> 'a) list" where
  "update_property key x [] = [(key, x)]"
| "update_property key x ((k, y) # kvs) =
     (if k = key then (k, x) # kvs else (k, y) # update_property key x kvs)"

definition write_property :: "js_object option \<Rightarrow> string \<Rightarrow> any \<Rightarrow> error + js_object option" where
  "write_property obj key newValue =
     (case obj of
        None \<Rightarrow> Inl (TypeError ''Cannot set property of undefined'')
      | Some kvs \<Rightarrow> Inr (Some (update_property key newValue kvs)))"

section \<open>ScriptValue\<close>

text \<open>
  The argument of \<open>getValue\<close>. A property with a getter (or a setter) is a function
  of the state; \<open>args_others\<close> is the object \<open>others\<close>, one getter per property.
  The functions \<open>emitGlobal\<close> and \<open>require\<close> reach the event emitter and the module
  loader, not the state of this module: what a script does with them is part of the
  function that stands for the script.
\<close>

record 'w ScriptValueProviderArguments =
  args_globals :: any
  args_globalState :: "'w \<Rightarrow> (error + any) \<times> 'w"
  args_name :: any
  args_options :: any
  args_others :: "(string \<times> ('w \<Rightarrow> (error + any) \<times> 'w)) list"
  args_replaceWithValues :: "any \<Rightarrow> 'w \<Rightarrow> (error + any) \<times> 'w"
  args_get_state :: "'w \<Rightarrow> (error + any) \<times> 'w"
  args_set_state :: "any \<Rightarrow> 'w \<Rightarrow> (error + unit) \<times> 'w"

text \<open>
  What a script module has under the name \<open>getValue\<close>: a function, or a value that
  is not a function (\<open>undefined\<close> when the module has no such export). A function
  runs arbitrary code: it may throw and may change the state.
\<close>

datatype 'w exported =
  NotFunction any
| Function "'w ScriptValueProviderArguments \<Rightarrow> 'w \<Rightarrow> (error + any) \<times> 'w"

record 'w ScriptValueModule =
  getValue :: "'w exported"

text \<open>
  What \<open>ScriptValue.value\<close> uses of the platform and of the other modules: the root of
  the workspace, three functions of \<open>Path\<close>, \<open>FS.existsSync\<close>, and
  \<open>deploy_helpers.loadModule\<close> and \<open>cloneObject\<close>. Loading a module may throw; it
  gives a falsy value (\<open>None\<close>) or the module.
\<close>

record 'w platform =
  workspace_rootPath :: any
  Path_isAbsolute :: "string \<Rightarrow> bool"
  Path_join :: "string \<Rightarrow> string \<Rightarrow> string"
  Path_resolve :: "string \<Rightarrow> string"
  FS_existsSync :: "string \<Rightarrow> bool"
  loadModule :: "string \<Rightarrow> error + 'w ScriptValueModule option"
  cloneObject :: "any \<Rightarrow> any"

text \<open>
  The path of the script: \<open>Path.join\<close> with the root of the workspace when the path
  is not absolute, then \<open>Path.resolve\<close>. The functions of \<open>Path\<close> raise a
  \<open>TypeError\<close> for an argument that is not a string.
\<close>

definition resolve_script :: "'w platform \<Rightarrow> any \<Rightarrow> error + string" where
  "resolve_script pf script =
     (case script of
        Str s \<Rightarrow>
          (if \<not> Path_isAbsolute pf s then
             (case workspace_rootPath pf of
                Str root \<Rightarrow> Inr (Path_resolve pf (Path_join pf root s))
              | _ \<Rightarrow> Inl (TypeError ''Path must be a string''))
           else Inr (Path_resolve pf s))
      | _ \<Rightarrow> Inl (TypeError ''Path must be a string''))"

text \<open>\<open>me.config.globals\<close>, where \<open>me.config\<close> is \<open>this._config || {}\<close>.\<close>

definition config_globals :: "any \<Rightarrow> any" where
  "config_globals cfg =
     (case cfg of
        Obj kvs \<Rightarrow> (case map_of kvs ''globals'' of None \<Rightarrow> Undefined | Some g \<Rightarrow> g)
      | _ \<Rightarrow> Undefined)"

text \<open>
  The object \<open>others\<close>: one property per other value whose name is not empty, with a
  getter that reads the value; a later value of the same name redefines the property.
\<close>

fun define_others ::
  "helpers \<Rightarrow> 'w ObjectWithNameAndValue list \<Rightarrow> (string \<times> ('w \<Rightarrow> (error + any) \<times> 'w)) list
     \<Rightarrow> (string \<times> ('w \<Rightarrow> (error + any) \<times> 'w)) list" where
  "define_others h [] others = others"
| "define_others h (ov # ovs) others =
     (let propertyName = toStringSafe h (get_name ov) in
      if propertyName = [] then define_others h ovs others
      else define_others h ovs (update_property propertyName (get_value ov) others))"

definition make_args ::
  "'m process_state_scheme platform \<Rightarrow> helpers \<Rightarrow> 'm process_state_scheme ObjectWithNameAndValue list \<Rightarrow>
     ValueBase \<Rightarrow> string \<Rightarrow> 'm process_state_scheme ScriptValueProviderArguments" where
  "make_args pf h otherVals me script =
     \<lparr> args_globals = cloneObject pf (config_globals (config me)),
       args_globalState =
         (\<lambda>w. (Inr (case globalScriptValueState w of None \<Rightarrow> Undefined | Some kvs \<Rightarrow> Obj kvs), w)),
       args_name = ValueBase_name me,
       args_options = cloneObject pf (item_options (ITEM me)),
       args_others = define_others h otherVals [],
       args_replaceWithValues = (\<lambda>val. replaceWithValues h otherVals val),
       args_get_state =
         (\<lambda>w. case read_property (scriptValueStates w) script of
                 Inl e \<Rightarrow> (Inl e, w)
               | Inr x \<Rightarrow> (Inr x, w)),
       args_set_state =
         (\<lambda>newValue w. case write_property (scriptValueStates w) script newValue of
                 Inl e \<Rightarrow> (Inl e, w)
               | Inr obj \<Rightarrow> (Inr (), w\<lparr> scriptValueStates := obj \<rparr>)) \<rparr>"

text \<open>
  The getter \<open>value\<close> of \<open>ScriptValue\<close>. \<open>otherVals\<close> is \<open>me.otherValues\<close>, as the
  objects with a name and a value that they are. The test \<open>if (scriptModule.getValue)\<close>
  asks whether the export is truthy, not whether it is a function: a truthy export is
  called, and the call of what is not a function raises a \<open>TypeError\<close>. There is no
  \<open>try\<close> in the getter: what is thrown inside leaves it. (\<open>delete require.cache[script]\<close> only makes the
  module loader read the file again; the loader is the function \<open>loadModule\<close> of the
  platform.)
\<close>

definition ScriptValue_value ::
  "'m process_state_scheme platform \<Rightarrow> helpers \<Rightarrow> 'm process_state_scheme ObjectWithNameAndValue list \<Rightarrow>
     ValueBase \<Rightarrow> 'm process_state_scheme \<Rightarrow> (error + any) \<times> 'm process_state_scheme" where
  "ScriptValue_value pf h otherVals me w =
     (let result = Undefined in
      case replaceWithValues h otherVals (Str (toStringSafe h (item_script (ITEM me)))) w of
        (Inl e, w1) \<Rightarrow> (Inl e, w1)
      | (Inr script, w1) \<Rightarrow>
          if \<not> isEmptyString h script then
            (case resolve_script pf script of
               Inl e \<Rightarrow> (Inl e, w1)
             | Inr path \<Rightarrow>
                 if FS_existsSync pf path then
                   (case loadModule pf path of
                      Inl e \<Rightarrow> (Inl e, w1)
                    | Inr None \<Rightarrow> (Inr result, w1)
                    | Inr (Some scriptModule) \<Rightarrow>
                        (case getValue scriptModule of
                           NotFunction x \<Rightarrow>
                             if truthy x
                             then (Inl (TypeError ''scriptModule.getValue is not a function''), w1)
                             else (Inr result, w1)
                         | Function g \<Rightarrow> g (make_args pf h otherVals me path) w1))
                 else (Inr result, w1))
          else (Inr result, w1))"

section \<open>The HTTP plugin: the placeholders of an upload\<close>







text \<open>
  The seven regular expressions of \<open>parsePlaceHolders\<close> have the flag \<open>i\<close> and not
  the flag \<open>g\<close>: each stands for a fixed text, matched without regard to case, and
  only its first match is replaced. Two characters match when they have the same
  canonical form: the upper-case letter, given as a code unit (of the code units below
  256 two have an upper-case letter above 255).
\<close>

definition Canonicalize :: "char \<Rightarrow> nat" where
  "Canonicalize c =
     (let n = (of_char c :: nat) in
      if (97 \<le> n \<and> n \<le> 122) \<or> (224 \<le> n \<and> n \<le> 254 \<and> n \<noteq> 247) then n - 32
      else if n = 255 then 376
      else if n = 181 then 924
      else n)"

text \<open>The fixed text \<open>pat\<close> at the start of a string: what follows the match.\<close>

fun match_token :: "string \<Rightarrow> string \<Rightarrow> string option" where
  "match_token [] s = Some s"
| "match_token (p # pat) [] = None"
| "match_token (p # pat) (c # cs) =
     (if Canonicalize c = Canonicalize p then match_token pat cs else None)"

text \<open>The first match in a string: what stands before it, the matched text, what stands after it.\<close>

fun search_token :: "string \<Rightarrow> string \<Rightarrow> (string \<times> string \<times> string) option" where
  "search_token pat [] =
     (case match_token pat [] of
        Some rest \<Rightarrow> Some ([], [], rest)
      | None \<Rightarrow> None)"
| "search_token pat (c # cs) =
     (case match_token pat (c # cs) of
        Some rest \<Rightarrow> Some ([], take (length pat) (c # cs), rest)
      | None \<Rightarrow>
          (case search_token pat cs of
             None \<Rightarrow> None
           | Some (lhs, m, rhs) \<Rightarrow> Some (c # lhs, m, rhs)))"

text \<open>
  The four groups of a match \<open>(\$)(\{)(name)(\})\<close>: its first character, its second
  character, what is between, its last character.
\<close>

definition captures :: "string \<Rightarrow> string list" where
  "captures m = [take 1 m, take 1 (drop 1 m), butlast (drop 2 m), drop (length m - 1) m]"

text \<open>
  The replacement is a string, so \<open>replace\<close> expands the patterns in it
  (\<open>GetSubstitution\<close>): \<open>$$\<close> is a dollar sign, \<open>$&\<close> the match, \<open>$`\<close> and
  \<open>$'\<close> what stands before and after the match, \<open>$n\<close> and \<open>$nn\<close> a group;
  two digits that number no group fall back to one digit, and a reference to no group
  stays as it is written.
\<close>

definition is_digit :: "char \<Rightarrow> bool" where
  "is_digit c = (48 \<le> (of_char c :: nat) \<and> (of_char c :: nat) \<le> 57)"

definition digit_of :: "char \<Rightarrow> nat" where
  "digit_of c = of_char c - 48"

fun GetSubstitution :: "string \<Rightarrow> string \<Rightarrow> string \<Rightarrow> string list \<Rightarrow> string \<Rightarrow> string" where
  "GetSubstitution m lhs rhs caps [] = []"
| "GetSubstitution m lhs rhs caps [c] = [c]"
| "GetSubstitution m lhs rhs caps (c # d # r) =
     (if c \<noteq> CHR ''$'' then c # GetSubstitution m lhs rhs caps (d # r)
      else if d = CHR ''$'' then CHR ''$'' # GetSubstitution m lhs rhs caps r
      else if d = CHR ''&'' then m @ GetSubstitution m lhs rhs caps r
      else if d = CHR 0x60 then lhs @ GetSubstitution m lhs rhs caps r
      else if d = CHR 0x27 then rhs @ GetSubstitution m lhs rhs caps r
      else if is_digit d then
        (case r of
           e # r' \<Rightarrow>
             if is_digit e \<and> 1 \<le> 10 * digit_of d + digit_of e \<and> 10 * digit_of d + digit_of e \<le> length caps
             then caps ! (10 * digit_of d + digit_of e - 1) @ GetSubstitution m lhs rhs caps r'
             else if is_digit e \<and> 10 * digit_of d + digit_of e = 0
             then c # d # e # GetSubstitution m lhs rhs caps r'
             else if 1 \<le> digit_of d \<and> digit_of d \<le> length caps
             then caps ! (digit_of d - 1) @ GetSubstitution m lhs rhs caps r
             else c # d # GetSubstitution m lhs rhs caps r
         | [] \<Rightarrow>
             if 1 \<le> digit_of d \<and> digit_of d \<le> length caps
             then caps ! (digit_of d - 1)
             else [c, d])
      else c # GetSubstitution m lhs rhs caps (d # r))"

text \<open>\<open>str.replace(/(\$)(\{)(name)(\})/i, replacement)\<close>, with \<open>token\<close> the text \<open>${name}\<close>.\<close>

definition replace_token :: "string \<Rightarrow> string \<Rightarrow> string \<Rightarrow> string" where
  "replace_token token replacement str =
     (case search_token token str of
        None \<Rightarrow> str
      | Some (lhs, m, rhs) \<Rightarrow>
          lhs @ GetSubstitution m lhs rhs (captures m) replacement @ rhs)"

text \<open>
  What \<open>parsePlaceHolders\<close> has captured of \<open>deployFile\<close>: the three times as
  formatted with \<open>DATE_RFC2822_UTC\<close>, the relative path, the content type, the file
  (of which it takes \<open>Path.basename\<close>, a function of the platform) and the length of
  the data.
\<close>

record upload =
  now_text :: string
  relativePath :: string
  contentType :: string
  file_path :: string
  Path_basename :: "string \<Rightarrow> string"
  data_length :: nat
  lastWriteTime_text :: string
  creationTime_text :: string

text \<open>
  One statement \<open>str = str.replace(regex, transformer(x))\<close>: the transformer is
  called first, and what it throws leaves \<open>parsePlaceHolders\<close>; a statement after a
  throw is not reached.
\<close>

definition replace_step ::
  "(any \<Rightarrow> error + string) \<Rightarrow> string \<Rightarrow> any \<Rightarrow> error + string \<Rightarrow> error + string" where
  "replace_step transformer token x str =
     (case str of
        Inl e \<Rightarrow> Inl e
      | Inr s \<Rightarrow>
          (case transformer x of
             Inl e \<Rightarrow> Inl e
           | Inr replacement \<Rightarrow> Inr (replace_token token replacement s)))"

definition parsePlaceHolders ::
  "helpers \<Rightarrow> upload \<Rightarrow> any \<Rightarrow> (any \<Rightarrow> error + string) option \<Rightarrow> error + string" where
  "parsePlaceHolders h u str transformer =
     (let transformer = (case transformer of None \<Rightarrow> (\<lambda>s. Inr (toStringSafe h s)) | Some t \<Rightarrow> t);
          str = Inr (toStringSafe h str);
          str = replace_step transformer ''${vsdeploy-date}'' (Str (now_text u)) str;
          str = replace_step transformer ''${vsdeploy-file}'' (Str (relativePath u)) str;
          str = replace_step transformer ''${vsdeploy-file-mime}'' (Str (contentType u)) str;
          str = replace_step transformer ''${vsdeploy-file-name}'' (Str (Path_basename u (file_path u))) str;
          str = replace_step transformer ''${vsdeploy-file-size}'' (Num (int (data_length u))) str;
          str = replace_step transformer ''${vsdeploy-file-time-changed}'' (Str (lastWriteTime_text u)) str;
          str = replace_step transformer ''${vsdeploy-file-time-created}'' (Str (creationTime_text u)) str
      in case str of
           Inl e \<Rightarrow> Inl e
         | Inr s \<Rightarrow> Inr (toStringSafe h (Str s)))"


fun for_in_headers ::
  "helpers \<Rightarrow> upload \<Rightarrow> (string \<times> any) list \<Rightarrow> (string \<times> string) list \<Rightarrow>
     error + (string \<times> string) list" where
  "for_in_headers h u [] headersToSubmit = Inr headersToSubmit"
| "for_in_headers h u ((p, x) # headers) headersToSubmit =
     (case parsePlaceHolders h u x None of
        Inl e \<Rightarrow> Inl e
      | Inr s \<Rightarrow> for_in_headers h u headers (headersToSubmit @ [(p, s)]))"

definition headersToSubmit ::
  "helpers \<Rightarrow> upload \<Rightarrow> (string \<times> any) list \<Rightarrow> error + (string \<times> string) list" where
  "headersToSubmit h u headers = for_in_headers h u headers []"

section \<open>Notions the theorems are stated with\<close>

text \<open>The text of a list of pieces, and the names of its placeholders.\<close>

fun piece_text :: "piece \<Rightarrow> string" where
  "piece_text (Text c) = [c]"
| "piece_text (Placeholder varName) = matched varName"

definition render :: "piece list \<Rightarrow> string" where
  "render ps = concat (map piece_text ps)"

fun names :: "piece list \<Rightarrow> string list" where
  "names [] = []"
| "names (Text c # ps) = names ps"
| "names (Placeholder varName # ps) = varName # names ps"

text \<open>
  A text that cannot become part of a placeholder when it is put into a string: it is
  not empty, has no dollar sign and does not start with an opening brace.
\<close>

definition plain :: "string \<Rightarrow> bool" where
  "plain t = (t \<noteq> [] \<and> CHR ''$'' \<notin> set t \<and> hd t \<noteq> CHR ''{'')"

text \<open>A value object whose \<open>value\<close> getter returns \<open>r\<close>, or throws \<open>e\<close>, in every state.\<close>

definition returning :: "any \<Rightarrow> any \<Rightarrow> 'w ObjectWithNameAndValue" where
  "returning n r = \<lparr> get_name = n, get_value = (\<lambda>w. (Inr r, w)) \<rparr>"

definition throwing :: "any \<Rightarrow> error \<Rightarrow> 'w ObjectWithNameAndValue" where
  "throwing n e = \<lparr> get_name = n, get_value = (\<lambda>w. (Inl e, w)) \<rparr>"

text \<open>
  A value object that cannot bring a placeholder into a string: whenever its \<open>value\<close>
  getter returns, the text of what it returns is plain (and it may throw).
\<close>

definition harmless :: "helpers \<Rightarrow> 'w ObjectWithNameAndValue \<Rightarrow> bool" where
  "harmless h v = (\<forall>w. case get_value v w of
                           (Inl e, w') \<Rightarrow> True
                         | (Inr r, w') \<Rightarrow> plain (toStringSafe h r))"

text \<open>The type tags that \<open>toValueObjects\<close> knows.\<close>

definition recognized :: "helpers \<Rightarrow> ValueWithName \<Rightarrow> bool" where
  "recognized h i =
     (normalizeString h (item_type i) \<in>
        {[], ''static'', ''code'', ''env'', ''environment'', ''file'', ''script''})"

text \<open>What \<open>toValueObjects\<close> sets on a new value object before it pushes it.\<close>

definition tagged :: "nat \<Rightarrow> ValueBase \<Rightarrow> ValueBase" where
  "tagged idx newValue =
     newValue\<lparr> obj_id := Num (int idx), otherValueProvider := Some Result_without_newValue \<rparr>"

text \<open>Items for the examples: a name and a type tag, or a name and an alias, nothing else set.\<close>

definition item_of :: "string \<Rightarrow> string \<Rightarrow> ValueWithName" where
  "item_of n t =
     \<lparr> item_name = Str n, item_type = Str t, item_value = Undefined,
       item_alias = Undefined, item_script = Undefined, item_options = Undefined \<rparr>"

definition env_item :: "string \<Rightarrow> any \<Rightarrow> ValueWithName" where
  "env_item n a =
     \<lparr> item_name = Str n, item_type = Str ''env'', item_value = Undefined,
       item_alias = a, item_script = Undefined, item_options = Undefined \<rparr>"

text \<open>
  Two shapes of a script: \<open>getValue\<close> reads \<open>args.state\<close> first, or writes it first,
  catches nothing, and goes on with \<open>k\<close>.
\<close>

definition reads_state ::
  "(any \<Rightarrow> 'w ScriptValueProviderArguments \<Rightarrow> 'w \<Rightarrow> (error + any) \<times> 'w) \<Rightarrow>
     'w ScriptValueProviderArguments \<Rightarrow> 'w \<Rightarrow> (error + any) \<times> 'w" where
  "reads_state k args w =
     (case args_get_state args w of
        (Inl e, w') \<Rightarrow> (Inl e, w')
      | (Inr s, w') \<Rightarrow> k s args w')"

definition writes_state ::
  "any \<Rightarrow> ('w ScriptValueProviderArguments \<Rightarrow> 'w \<Rightarrow> (error + any) \<times> 'w) \<Rightarrow>
     'w ScriptValueProviderArguments \<Rightarrow> 'w \<Rightarrow> (error + any) \<times> 'w" where
  "writes_state x k args w =
     (case args_set_state args x w of
        (Inl e, w') \<Rightarrow> (Inl e, w')
      | (Inr u, w') \<Rightarrow> k args w')"

text \<open>
  A platform for the examples: paths that start with a slash are absolute, the
  workspace is \<open>/ws\<close>, and the files \<open>/ws/a.js\<close> (a module whose \<open>getValue\<close> is
  \<open>g\<close>), \<open>/ws/empty.js\<close> (a module without \<open>getValue\<close>), \<open>/ws/five.js\<close> (a
  module whose \<open>getValue\<close> is the number 5) and \<open>/ws/null.js\<close> (what is loaded is
  falsy) exist. The second platform is the same with no folder open: the root of the
  workspace is \<open>undefined\<close>.
\<close>

definition example_platform ::
  "('w ScriptValueProviderArguments \<Rightarrow> 'w \<Rightarrow> (error + any) \<times> 'w) \<Rightarrow> 'w platform" where
  "example_platform g =
     \<lparr> workspace_rootPath = Str ''/ws'',
       Path_isAbsolute = (\<lambda>s. s \<noteq> [] \<and> hd s = CHR ''/''),
       Path_join = (\<lambda>a b. a @ ''/'' @ b),
       Path_resolve = (\<lambda>s. s),
       FS_existsSync = (\<lambda>s. s = ''/ws/a.js'' \<or> s = ''/ws/empty.js'' \<or> s = ''/ws/five.js'' \<or>
                            s = ''/ws/null.js''),
       loadModule = (\<lambda>s. if s = ''/ws/a.js'' then Inr (Some \<lparr> getValue = Function g \<rparr>)
                           else if s = ''/ws/empty.js'' then Inr (Some \<lparr> getValue = NotFunction Undefined \<rparr>)
                           else if s = ''/ws/five.js'' then Inr (Some \<lparr> getValue = NotFunction (Num 5) \<rparr>)
                           else Inr None),
       cloneObject = (\<lambda>x. x) \<rparr>"

definition example_platform_no_root ::
  "('w ScriptValueProviderArguments \<Rightarrow> 'w \<Rightarrow> (error + any) \<times> 'w) \<Rightarrow> 'w platform" where
  "example_platform_no_root g = (example_platform g)\<lparr> workspace_rootPath := Undefined \<rparr>"

definition script_item :: "string \<Rightarrow> ValueWithName" where
  "script_item s =
     \<lparr> item_name = Str ''s'', item_type = Str ''script'', item_value = Undefined,
       item_alias = Undefined, item_script = Str s, item_options = Undefined \<rparr>"

text \<open>Two names that a regular expression with the flag \<open>i\<close> does not tell apart.\<close>

definition same_token :: "string \<Rightarrow> string \<Rightarrow> bool" where
  "same_token a b = (map Canonicalize a = map Canonicalize b)"












section \<open>Theorems\<close>

subsection \<open>Response classification\<close>

lemma int_toString_404: "int_toString 404 = ''404''"
  by code_simp

lemma onResponse_success: "199 < c \<Longrightarrow> c < 300 \<Longrightarrow> onResponse c m = None"
  by (simp add: onResponse_def)

lemma onResponse_no_success:
  "\<not> (199 < c \<and> c < 300) \<Longrightarrow>
     onResponse c m = Some (''No success: ['' @ int_toString c @ ''] '' @ quoted m)"
  by (simp add: onResponse_def)

text \<open>
  C1: the claim says that a status in 400..499 completes with a client-error message.
  The first test of the callback already returns for every status outside 200..299, so
  the response 404 Not Found completes with the message \<open>No success: [404] 'Not Found'\<close>
  and not with \<open>Client error: [404] 'Not Found'\<close>: the three later tests never fire.
\<close>

theorem onResponse_404_no_success:
  "onResponse 404 ''Not Found'' = Some (''No success: [404] '' @ quoted ''Not Found'') \<and>
   onResponse 404 ''Not Found'' \<noteq> Some (''Client error: [404] '' @ quoted ''Not Found'')"
  by (simp add: onResponse_def int_toString_404)

subsection \<open>The scan\<close>

lemma match_placeholder_text:
  "match_placeholder s = Some (varName, rest) \<Longrightarrow> s = matched varName @ rest"
proof (cases s rule: match_placeholder.cases)
  case (1 c1 c2 r)
  assume m: "match_placeholder s = Some (varName, rest)"
  from 1 m have in_r: "CHR ''}'' \<in> set r" by (auto split: if_splits)
  then have "dropWhile not_closing r \<noteq> []"
    by (auto simp: not_closing_def dropWhile_eq_Nil_conv)
  moreover have "hd (dropWhile not_closing r) = CHR ''}''"
    using in_r hd_dropWhile[of not_closing r] by (auto simp: not_closing_def dropWhile_eq_Nil_conv)
  ultimately have "dropWhile not_closing r = CHR ''}'' # tl (dropWhile not_closing r)"
    by (cases "dropWhile not_closing r") auto
  then have "r = takeWhile not_closing r @ CHR ''}'' # tl (dropWhile not_closing r)"
    by (metis takeWhile_dropWhile_id)
  with 1 m show ?thesis
    by (auto simp: matched_def split: if_splits)
qed simp_all

lemma render_scan: "render (scan s) = s"
proof (induction s rule: scan.induct)
  case 1
  then show ?case by (simp add: render_def)
next
  case (2 c cs)
  then show ?case
    by (auto simp: render_def split: option.splits dest: match_placeholder_text)
qed

lemma placeholders_append: "set (placeholders cs) \<subseteq> set (placeholders (pre @ cs))"
  by (induction pre) (auto split: option.splits)

lemma names_scan_placeholders: "set (names (scan s)) \<subseteq> set (placeholders s)"
proof (induction s rule: scan.induct)
  case 1
  then show ?case by simp
next
  case (2 c cs)
  show ?case
  proof (cases "match_placeholder (c # cs)")
    case None
    with 2 show ?thesis by auto
  next
    case (Some a)
    obtain varName rest where a: "a = (varName, rest)" by (cases a)
    from Some a have "c # cs = matched varName @ rest"
      by (auto dest: match_placeholder_text)
    then have "cs = tl (matched varName) @ rest"
      by (simp add: matched_def)
    then have "set (placeholders rest) \<subseteq> set (placeholders cs)"
      using placeholders_append[of rest "tl (matched varName)"] by simp
    moreover have "set (names (scan rest)) \<subseteq> set (placeholders rest)"
      using "2.IH" Some a by auto
    ultimately show ?thesis using Some a by auto
  qed
qed

subsection \<open>No exception leaves the substitution\<close>





lemma forEach_values_append:
  "forEach_values h (front @ back) str w =
     (case forEach_values h front str w of
        (Inl e, w') \<Rightarrow> (Inl e, w')
      | (Inr s1, w1) \<Rightarrow> forEach_values h back s1 w1)"
  by (induction front arbitrary: str w) (auto simp: Let_def split: prod.splits sum.splits)

subsection \<open>A replacer that gives back the matched text\<close>

lemma replace_pieces_unchanged:
  assumes "\<And>n w. n \<in> set (names ps) \<Longrightarrow> f (matched n) n w = (Inr (matched n), w)"
  shows "replace_pieces f ps w = (Inr (render ps), w)"
  using assms
proof (induction ps arbitrary: w)
  case Nil
  then show ?case by (simp add: render_def)
next
  case (Cons p ps)
  then show ?case by (cases p) (auto simp: render_def)
qed


lemma String_replace_unchanged:
  assumes "\<And>n w. n \<in> set (names (scan str)) \<Longrightarrow> f (matched n) n w = (Inr (matched n), w)"
  shows "String_replace f str w = (Inr str, w)"
  unfolding String_replace_def
  using replace_pieces_unchanged[of "scan str" f w] assms
  by (auto simp: render_scan)

lemma forEach_values_unchanged:
  assumes "\<forall>n \<in> set (placeholders str). \<forall>v \<in> set vs. normalizeString h (Str n) \<noteq> normalizeString h (get_name v)"
  shows "forEach_values h vs str w = (Inr str, w)"
  using assms
proof (induction vs)
  case Nil
  then show ?case by simp
next
  case (Cons v vs)
  have "String_replace (replacer h v (normalizeString h (get_name v))) str w = (Inr str, w)"
    by (rule String_replace_unchanged)
      (use Cons.prems names_scan_placeholders[of str] in \<open>auto simp: replacer_def\<close>)
  with Cons show ?case by (simp add: Let_def)
qed

subsection \<open>How a pass changes what the next pass finds\<close>

lemma match_placeholder_matched:
  assumes "CHR ''}'' \<notin> set n"
  shows "match_placeholder (matched n @ rest) = Some (n, rest)"
proof -
  have all: "\<And>x. x \<in> set n \<Longrightarrow> not_closing x"
    using assms by (auto simp: not_closing_def)
  have "takeWhile not_closing (n @ CHR ''}'' # rest) = n"
    using all by (simp add: takeWhile_append2 not_closing_def)
  moreover have "dropWhile not_closing (n @ CHR ''}'' # rest) = CHR ''}'' # rest"
    using all by (simp add: dropWhile_append2 not_closing_def)
  ultimately show ?thesis
    by (simp add: matched_def)
qed

lemma match_placeholder_no_dollar: "c \<noteq> CHR ''$'' \<Longrightarrow> match_placeholder (c # s) = None"
  by (cases s) auto

lemma match_placeholder_no_brace:
  "s = [] \<or> hd s \<noteq> CHR ''{'' \<Longrightarrow> match_placeholder (c # s) = None"
  by (cases s) auto

lemma match_placeholder_no_closing:
  "CHR ''}'' \<notin> set s \<Longrightarrow> match_placeholder (c # s) = None"
  by (cases s) auto

lemma match_placeholder_name:
  "match_placeholder s = Some (n, rest) \<Longrightarrow> CHR ''}'' \<notin> set n"
proof (cases s rule: match_placeholder.cases)
  case (1 c1 c2 r)
  assume "match_placeholder s = Some (n, rest)"
  with 1 have "n = takeWhile not_closing r" by (auto split: if_splits)
  then show ?thesis
    using set_takeWhileD[of "CHR ''}''" not_closing r] by (auto simp: not_closing_def)
qed simp_all

lemma scan_no_closing: "CHR ''}'' \<notin> set s \<Longrightarrow> scan s = map Text s"
  by (induction s) (auto simp: match_placeholder_no_closing)

lemma scan_no_dollar_append: "CHR ''$'' \<notin> set t \<Longrightarrow> scan (t @ r) = map Text t @ scan r"
  by (induction t) (auto simp: match_placeholder_no_dollar)

lemma scan_matched_append:
  "CHR ''}'' \<notin> set n \<Longrightarrow> scan (matched n @ r) = Placeholder n # scan r"
  using match_placeholder_matched[of n r] by (simp add: matched_def)

lemma names_Text_append: "names (map Text t @ ps) = names ps"
  by (induction t) auto

lemma replace_pieces_Text: "replace_pieces f (map Text t) w = (Inr t, w)"
  by (induction t) auto

lemma scan_after_replace:
  assumes f: "\<And>n w. \<exists>t w'. f (matched n) n w = (Inr t, w') \<and> ((t = matched n \<and> K n) \<or> plain t)"
  shows "\<exists>s' w'. replace_pieces f (scan s) w = (Inr s', w') \<and>
           set (names (scan s')) \<subseteq> {n \<in> set (names (scan s)). K n} \<and>
           (s = [] \<or> hd s \<noteq> CHR ''{'' \<longrightarrow> s' = [] \<or> hd s' \<noteq> CHR ''{'')"
proof (induction s arbitrary: w rule: scan.induct)
  case 1
  then show ?case by simp
next
  case (2 c cs)
  show ?case
  proof (cases "match_placeholder (c # cs)")
    case None
    from "2.IH"(1)[OF None, of w] obtain r w' where
      r: "replace_pieces f (scan cs) w = (Inr r, w')"
      and sub: "set (names (scan r)) \<subseteq> {n \<in> set (names (scan cs)). K n}"
      and hd: "cs = [] \<or> hd cs \<noteq> CHR ''{'' \<longrightarrow> r = [] \<or> hd r \<noteq> CHR ''{''"
      by blast
    have m: "match_placeholder (c # r) = None"
    proof (cases "c \<noteq> CHR ''$''")
      case True
      then show ?thesis by (rule match_placeholder_no_dollar)
    next
      case c: False
      show ?thesis
      proof (cases "cs = [] \<or> hd cs \<noteq> CHR ''{''")
        case True
        with hd show ?thesis by (auto intro: match_placeholder_no_brace)
      next
        case False
        then obtain cs' where cs: "cs = CHR ''{'' # cs'" by (cases cs) auto
        with None c have "CHR ''}'' \<notin> set cs'" by (auto split: if_splits)
        with cs have nc: "CHR ''}'' \<notin> set cs" by auto
        then have "scan cs = map Text cs" by (rule scan_no_closing)
        with r have "r = cs" by (simp add: replace_pieces_Text)
        with None show ?thesis by simp
      qed
    qed
    from None r have "replace_pieces f (scan (c # cs)) w = (Inr (c # r), w')" by simp
    moreover from m have "scan (c # r) = Text c # scan r" by simp
    moreover from None have "scan (c # cs) = Text c # scan cs" by simp
    ultimately show ?thesis using sub by auto
  next
    case (Some a)
    obtain n rest where a: "a = (n, rest)" by (cases a)
    from Some a have eq: "c # cs = matched n @ rest" by (auto dest: match_placeholder_text)
    from Some a have n: "CHR ''}'' \<notin> set n" by (auto dest: match_placeholder_name)
    from f[of n w] obtain t w1 where
      ft: "f (matched n) n w = (Inr t, w1)" and t: "(t = matched n \<and> K n) \<or> plain t" by blast
    from "2.IH"(2)[OF Some a[symmetric], of w1] obtain r w' where
      r: "replace_pieces f (scan rest) w1 = (Inr r, w')"
      and sub: "set (names (scan r)) \<subseteq> {n \<in> set (names (scan rest)). K n}"
      by blast
    from Some a have sc: "scan (c # cs) = Placeholder n # scan rest" by simp
    with ft r have res: "replace_pieces f (scan (c # cs)) w = (Inr (t @ r), w')" by simp
    from t show ?thesis
    proof
      assume k: "t = matched n \<and> K n"
      then have "scan (t @ r) = Placeholder n # scan r"
        using n by (simp add: scan_matched_append)
      moreover from k have "hd (t @ r) \<noteq> CHR ''{''" and "t @ r \<noteq> []"
        by (simp_all add: matched_def)
      ultimately show ?thesis using k res sc sub by auto
    next
      assume p: "plain t"
      then have "scan (t @ r) = map Text t @ scan r" and "t @ r \<noteq> []" and "hd (t @ r) \<noteq> CHR ''{''"
        by (auto simp: plain_def scan_no_dollar_append)
      with res sc sub show ?thesis by (auto simp: names_Text_append)
    qed
  qed
qed




lemma String_replace_good:
  assumes good: "\<forall>w. \<exists>r w'. get_value v w = (Inr r, w') \<and> plain (toStringSafe h r)"
  shows "\<exists>s' w'. String_replace (replacer h v vn) s w = (Inr s', w') \<and>
           (\<forall>n \<in> set (names (scan s')). normalizeString h (Str n) \<noteq> vn) \<and>
           set (names (scan s')) \<subseteq> set (names (scan s))"
proof -
  have "\<exists>t w'. replacer h v vn (matched n) n w = (Inr t, w') \<and>
          ((t = matched n \<and> normalizeString h (Str n) \<noteq> vn) \<or> plain t)" for n w
  proof -
    from good obtain r w' where "get_value v w = (Inr r, w')" and "plain (toStringSafe h r)"
      by blast
    then show ?thesis by (simp add: replacer_def Let_def)
  qed
  from scan_after_replace[of "replacer h v vn" "\<lambda>n. normalizeString h (Str n) \<noteq> vn" s w, OF this]
  show ?thesis by (auto simp: String_replace_def)
qed

lemma String_replace_harmless:
  assumes "harmless h v"
  shows "\<exists>s' w'. String_replace (replacer h v vn) s w = (Inr s', w') \<and>
           set (names (scan s')) \<subseteq> set (names (scan s))"
proof -
  have "\<exists>t w'. replacer h v vn (matched n) n w = (Inr t, w') \<and> ((t = matched n \<and> True) \<or> plain t)"
    for n w
  proof (cases "get_value v w")
    case (Pair o' w')
    with assms have "case o' of Inl e \<Rightarrow> True | Inr r \<Rightarrow> plain (toStringSafe h r)"
      by (auto simp: harmless_def split: prod.splits dest: spec[of _ w])
    with Pair show ?thesis by (cases o') (simp_all add: replacer_def Let_def)
  qed
  from scan_after_replace[of "replacer h v vn" "\<lambda>n. True" s w, OF this]
  show ?thesis by (auto simp: String_replace_def)
qed

lemma forEach_values_harmless:
  assumes "\<forall>u \<in> set vs. harmless h u"
  shows "\<exists>s' w'. forEach_values h vs s w = (Inr s', w') \<and>
           set (names (scan s')) \<subseteq> set (names (scan s))"
  using assms
proof (induction vs arbitrary: s w)
  case Nil
  then show ?case by simp
next
  case (Cons v vs)
  from Cons.prems have "harmless h v" by simp
  from String_replace_harmless[OF this, of "normalizeString h (get_name v)" s w]
  obtain s1 w1 where 1: "String_replace (replacer h v (normalizeString h (get_name v))) s w = (Inr s1, w1)"
    and sub1: "set (names (scan s1)) \<subseteq> set (names (scan s))" by blast
  from Cons.IH[of s1 w1] Cons.prems obtain s' w' where
    2: "forEach_values h vs s1 w1 = (Inr s', w')" and sub2: "set (names (scan s')) \<subseteq> set (names (scan s1))"
    by auto
  from 1 2 sub1 sub2 show ?case by (auto simp: Let_def)
qed

lemma String_replace_no_name:
  assumes "\<forall>n \<in> set (names (scan s)). normalizeString h (Str n) \<noteq> vn"
  shows "String_replace (replacer h v vn) s w = (Inr s, w)"
  by (rule String_replace_unchanged) (use assms in \<open>simp add: replacer_def\<close>)

lemma forEach_values_no_dollar:
  assumes "CHR ''$'' \<notin> set s"
  shows "forEach_values h vs s w = (Inr s, w)"
proof (rule forEach_values_unchanged)
  have "placeholders s = []" using assms
    by (induction s) (auto simp: match_placeholder_no_dollar)
  then show "\<forall>n\<in>set (placeholders s). \<forall>v\<in>set vs. normalizeString h (Str n) \<noteq> normalizeString h (get_name v)"
    by simp
qed

subsection \<open>The helpers of the examples\<close>

lemma std_toStringSafe_Str: "toStringSafe std_helpers (Str s) = s"
  by (simp add: std_helpers_def std_toStringSafe_def isNullOrUndefined_def)

subsection \<open>Substitution: tokens that match no value\<close>

lemma placeholders_iff:
  "n \<in> set (placeholders s) \<longleftrightarrow> (\<exists>pre post. s = pre @ matched n @ post \<and> CHR ''}'' \<notin> set n)"
proof
  assume "n \<in> set (placeholders s)"
  then show "\<exists>pre post. s = pre @ matched n @ post \<and> CHR ''}'' \<notin> set n"
  proof (induction s)
    case Nil
    then show ?case by simp
  next
    case (Cons c cs)
    show ?case
    proof (cases "match_placeholder (c # cs) = Some (n, snd (the (match_placeholder (c # cs))))")
      case True
      then have "c # cs = [] @ matched n @ snd (the (match_placeholder (c # cs)))" and "CHR ''}'' \<notin> set n"
        by (auto dest: match_placeholder_text match_placeholder_name)
      then show ?thesis by blast
    next
      case False
      with Cons.prems have "n \<in> set (placeholders cs)"
        by (auto split: option.splits)
      with Cons.IH obtain pre post where "cs = pre @ matched n @ post" and "CHR ''}'' \<notin> set n"
        by blast
      then have "c # cs = (c # pre) @ matched n @ post" and "CHR ''}'' \<notin> set n" by simp_all
      then show ?thesis by blast
    qed
  qed
next
  assume "\<exists>pre post. s = pre @ matched n @ post \<and> CHR ''}'' \<notin> set n"
  then obtain pre post where s: "s = pre @ matched n @ post" and n: "CHR ''}'' \<notin> set n" by blast
  have "n \<in> set (placeholders (matched n @ post))"
    using match_placeholder_matched[OF n, of post] by (simp add: matched_def)
  then show "n \<in> set (placeholders s)"
    unfolding s using placeholders_append[of "matched n @ post" pre] by blast
qed

lemma normalizeString_x: "normalizeString std_helpers (Str ''x'') = ''x''"
  by code_simp

lemma normalizeString_y: "normalizeString std_helpers (Str ''y'') = ''y''"
  by code_simp

lemma placeholders_Hello: "placeholders ''Hello ${x}!'' = [''x'']"
  by code_simp

text \<open>
  C6: when no substring \<open>${name}\<close> of the string \<open>s\<close> has a normalized name that is
  the normalized name of one of the values, \<open>replaceWithValues(values, s)\<close> returns
  \<open>s\<close> (and reads no value: the state is as before); with the empty list of values
  every string comes back as it is. \<open>placeholders s\<close> lists the names of all
  substrings \<open>${name}\<close> of \<open>s\<close> (lemma \<open>placeholders_iff\<close>). The string helper is
  assumed to give back a string as it is.
\<close>

theorem replaceWithValues_no_match_unchanged:
  assumes "toStringSafe h (Str s) = s"
    and "\<forall>n \<in> set (placeholders s). \<forall>v \<in> set allValues.
           normalizeString h (Str n) \<noteq> normalizeString h (get_name v)"
  shows "replaceWithValues h allValues (Str s) w = (Inr (Str s), w) \<and>
         replaceWithValues h [] (Str s) w = (Inr (Str s), w)"
  using assms forEach_values_unchanged[of s allValues h w]
  by (simp add: replaceWithValues_def isNullOrUndefined_def)

theorem replaceWithValues_no_match_unchanged_witness:
  "replaceWithValues std_helpers [returning (Str ''y'') (Str ''Y'')] (Str ''Hello ${x}!'') () =
     (Inr (Str ''Hello ${x}!''), ()) \<and>
   replaceWithValues std_helpers [] (Str ''Hello ${x}!'') () = (Inr (Str ''Hello ${x}!''), ())"
proof -
  have 1: "toStringSafe std_helpers (Str ''Hello ${x}!'') = ''Hello ${x}!''"
    by (rule std_toStringSafe_Str)
  have 2: "\<forall>n \<in> set (placeholders ''Hello ${x}!''). \<forall>v \<in> set [returning (Str ''y'') (Str ''Y'')].
           normalizeString std_helpers (Str n) \<noteq> normalizeString std_helpers (get_name v)"
    unfolding placeholders_Hello by (simp add: normalizeString_x normalizeString_y returning_def)
  show ?thesis
    by (rule replaceWithValues_no_match_unchanged[OF 1 2])
qed


subsection \<open>Substitution: a value whose getter throws\<close>









subsection \<open>Substitution: two values with one name\<close>

lemma forEach_values_no_name:
  assumes "\<forall>n \<in> set (names (scan str)). \<forall>v \<in> set vs.
             normalizeString h (get_name v) \<noteq> normalizeString h (Str n)"
  shows "forEach_values h vs str w = (Inr str, w)"
  using assms
proof (induction vs)
  case Nil
  then show ?case by simp
next
  case (Cons v vs)
  have "String_replace (replacer h v (normalizeString h (get_name v))) str w = (Inr str, w)"
    by (rule String_replace_no_name) (use Cons.prems in auto)
  with Cons show ?case by (simp add: Let_def)
qed

text \<open>
  C2, as the code has it: of two values with the same normalized name the earlier one
  in the list wins. Let the getter of the earlier value always return a plain text
  (not empty, no dollar sign, no opening brace first), and let the values between the
  two return plain texts or throw. Then the later value changes nothing: for every
  input, the result (and the state) with it is the result without it. And a string
  that is one token \<open>${t}\<close> with the normalized name of the earlier value becomes the
  text of the earlier value, whatever values follow it in the list, when no value
  before it in the list has that normalized name.
\<close>

theorem replaceWithValues_same_name_earlier_wins:
  assumes same: "normalizeString h (get_name later) = normalizeString h (get_name earlier)"
    and good: "\<forall>w. \<exists>r w'. get_value earlier w = (Inr r, w') \<and> plain (toStringSafe h r)"
    and between: "\<forall>u \<in> set between. harmless h u"
  shows "replaceWithValues h (front @ earlier # between @ later # back) val w =
           replaceWithValues h (front @ earlier # between @ back) val w \<and>
         (normalizeString h (Str t) = normalizeString h (get_name earlier) \<longrightarrow>
          CHR ''}'' \<notin> set t \<longrightarrow> toStringSafe h (Str (matched t)) = matched t \<longrightarrow>
          (\<forall>u \<in> set front. normalizeString h (get_name u) \<noteq> normalizeString h (get_name earlier)) \<longrightarrow>
          get_value earlier w = (Inr r, w') \<longrightarrow>
            replaceWithValues h (front @ earlier # others) (Str (matched t)) w =
              (Inr (Str (toStringSafe h r)), w'))"
proof (intro conjI impI)
  let ?vn = "normalizeString h (get_name earlier)"
  have "forEach_values h (earlier # between @ later # back) s1 w1 =
        forEach_values h (earlier # between @ back) s1 w1" for s1 w1
  proof -
    from String_replace_good[OF good, of ?vn s1 w1] obtain s2 w2 where
      2: "String_replace (replacer h earlier ?vn) s1 w1 = (Inr s2, w2)"
      and none2: "\<forall>n \<in> set (names (scan s2)). normalizeString h (Str n) \<noteq> ?vn" by blast
    from forEach_values_harmless[OF between, of s2 w2] obtain s3 w3 where
      3: "forEach_values h between s2 w2 = (Inr s3, w3)"
      and sub3: "set (names (scan s3)) \<subseteq> set (names (scan s2))" by blast
    from none2 sub3 have "\<forall>n \<in> set (names (scan s3)). normalizeString h (Str n) \<noteq> ?vn" by blast
    then have 4: "String_replace (replacer h later ?vn) s3 w3 = (Inr s3, w3)"
      by (rule String_replace_no_name)
    from 2 3 4 same show ?thesis
      by (simp add: forEach_values_append Let_def)
  qed
  then have "forEach_values h (front @ earlier # between @ later # back) s w =
             forEach_values h (front @ earlier # between @ back) s w" for s
    by (simp add: forEach_values_append del: forEach_values.simps split: prod.splits sum.splits)
  then show "replaceWithValues h (front @ earlier # between @ later # back) val w =
             replaceWithValues h (front @ earlier # between @ back) val w"
    by (simp add: replaceWithValues_def)
next
  assume t: "normalizeString h (Str t) = normalizeString h (get_name earlier)"
    and nc: "CHR ''}'' \<notin> set t" and str: "toStringSafe h (Str (matched t)) = matched t"
    and fr: "\<forall>u \<in> set front. normalizeString h (get_name u) \<noteq> normalizeString h (get_name earlier)"
    and v: "get_value earlier w = (Inr r, w')"
  from good v have "plain (toStringSafe h r)" by (metis Pair_inject sum.inject(2))
  then have nd: "CHR ''$'' \<notin> set (toStringSafe h r)" by (simp add: plain_def)
  have sc: "scan (matched t) = [Placeholder t]"
    using scan_matched_append[OF nc, of "[]"] by simp
  have before: "forEach_values h front (matched t) w = (Inr (matched t), w)"
    by (rule forEach_values_no_name) (use sc fr t in simp)
  from sc have "String_replace (replacer h earlier (normalizeString h (get_name earlier))) (matched t) w =
             (Inr (toStringSafe h r), w')"
    using t v by (simp add: String_replace_def replacer_def Let_def)
  then show "replaceWithValues h (front @ earlier # others) (Str (matched t)) w =
             (Inr (Str (toStringSafe h r)), w')"
    using str before forEach_values_no_dollar[OF nd, of h others w']
    by (simp add: replaceWithValues_def isNullOrUndefined_def forEach_values_append Let_def)
qed


theorem replaceWithValues_same_name_earlier_wins_witness:
  "replaceWithValues std_helpers
     [returning (Str ''x'') (Str ''0''), returning (Str ''n'') (Str ''A''), throwing (Str ''x'') (Thrown Null),
      returning (Str ''N '') (Str ''B'')]
     (Str ''${n}/${ N }'') () =
   replaceWithValues std_helpers
     [returning (Str ''x'') (Str ''0''), returning (Str ''n'') (Str ''A''), throwing (Str ''x'') (Thrown Null)]
     (Str ''${n}/${ N }'') () \<and>
   replaceWithValues std_helpers
     [returning (Str ''x'') (Str ''0''), returning (Str ''n'') (Str ''A''), returning (Str ''N '') (Str ''B'')]
     (Str (matched ''n'')) () = (Inr (Str ''A''), ())"
proof -
  have same: "normalizeString std_helpers (get_name (returning (Str ''N '') (Str ''B'') :: unit ObjectWithNameAndValue)) =
              normalizeString std_helpers (get_name (returning (Str ''n'') (Str ''A'') :: unit ObjectWithNameAndValue))"
    unfolding returning_def by code_simp
  have good: "\<forall>w::unit. \<exists>r w'. get_value (returning (Str ''n'') (Str ''A'')) w = (Inr r, w') \<and>
                plain (toStringSafe std_helpers r)"
    by (simp add: returning_def plain_def std_toStringSafe_Str)
  have btw: "\<forall>u \<in> set [throwing (Str ''x'') (Thrown Null) :: unit ObjectWithNameAndValue]. harmless std_helpers u"
    by (simp add: harmless_def throwing_def)
  have t: "normalizeString std_helpers (Str ''n'') =
           normalizeString std_helpers (get_name (returning (Str ''n'') (Str ''A'') :: unit ObjectWithNameAndValue))"
    by (simp add: returning_def)
  have fr: "\<forall>u \<in> set [returning (Str ''x'') (Str ''0'') :: unit ObjectWithNameAndValue].
              normalizeString std_helpers (get_name u) \<noteq>
              normalizeString std_helpers (get_name (returning (Str ''n'') (Str ''A'') :: unit ObjectWithNameAndValue))"
    unfolding returning_def by code_simp
  have v: "get_value (returning (Str ''n'') (Str ''A'')) () = (Inr (Str ''A''), ())"
    by (simp add: returning_def)
  note a = replaceWithValues_same_name_earlier_wins[OF same good btw,
      of "[returning (Str ''x'') (Str ''0'')]" "[]" "Str ''${n}/${ N }''" "()"
        "''n''" "Str ''A''" "()" "[returning (Str ''N '') (Str ''B'')]"]
  from a have 1: "replaceWithValues std_helpers
     [returning (Str ''x'') (Str ''0''), returning (Str ''n'') (Str ''A''), throwing (Str ''x'') (Thrown Null),
      returning (Str ''N '') (Str ''B'')]
     (Str ''${n}/${ N }'') () =
   replaceWithValues std_helpers
     [returning (Str ''x'') (Str ''0''), returning (Str ''n'') (Str ''A''), throwing (Str ''x'') (Thrown Null)]
     (Str ''${n}/${ N }'') ()"
    by simp
  have nc: "CHR ''}'' \<notin> set ''n''" by simp
  from a t nc fr v have 2: "replaceWithValues std_helpers
     ([returning (Str ''x'') (Str ''0'')] @ returning (Str ''n'') (Str ''A'') # [returning (Str ''N '') (Str ''B'')])
     (Str (matched ''n'')) () = (Inr (Str (toStringSafe std_helpers (Str ''A''))), ())"
    using std_toStringSafe_Str[of "matched ''n''"] by blast
  from 1 2 show ?thesis by (simp add: std_toStringSafe_Str)
qed

text \<open>
  The claim as the spec states it, the later value wins, fails on the smallest input:
  the values \<open>n = A\<close> and \<open>n = B\<close>, in this order, and the string \<open>${n}\<close>.
\<close>

theorem replaceWithValues_later_wins_counterexample:
  "replaceWithValues std_helpers [returning (Str ''n'') (Str ''A''), returning (Str ''n'') (Str ''B'')]
     (Str ''${n}'') () = (Inr (Str ''A''), ()) \<and>
   replaceWithValues std_helpers [returning (Str ''n'') (Str ''A''), returning (Str ''n'') (Str ''B'')]
     (Str ''${n}'') () \<noteq> (Inr (Str ''B''), ())"
  by code_simp

subsection \<open>toValueObjects: ids and the other values\<close>

lemma switch_type_recognized: "switch_type h i cfg \<noteq> None \<longleftrightarrow> recognized h i"
  by (auto simp: switch_type_def recognized_def Let_def)

lemma forEach_items_enumerate:
  "forEach_items h cfg items idx result =
     result @ List.map_filter (\<lambda>(k, i). map_option (tagged k) (switch_type h i cfg)) (enumerate idx items)"
proof (induction items arbitrary: idx result)
  case Nil
  then show ?case by (simp add: List.map_filter_simps)
next
  case (Cons i items)
  then show ?case
    by (cases "switch_type h i cfg") (simp_all add: List.map_filter_simps tagged_def)
qed

lemma toValueObjects_enumerate:
  "toValueObjects h items cfg =
     List.map_filter (\<lambda>(k, i). map_option (tagged k) (switch_type h i cfg))
       (enumerate 0 (filter_truthy items))"
  by (simp add: toValueObjects_def forEach_items_enumerate)

lemma map_filter_ids:
  "map obj_id (List.map_filter (\<lambda>(k, i). map_option (tagged k) (switch_type h i cfg)) kis) =
     map (\<lambda>(k, i). Num (int k)) (filter (\<lambda>(k, i). recognized h i) kis)"
proof (induction kis)
  case Nil
  then show ?case by (simp add: List.map_filter_simps)
next
  case (Cons ki kis)
  obtain k i where ki: "ki = (k, i)" by (cases ki)
  show ?case
  proof (cases "switch_type h i cfg")
    case None
    with Cons ki switch_type_recognized[of h i cfg] show ?thesis
      by (simp add: List.map_filter_simps)
  next
    case (Some nv)
    with Cons ki switch_type_recognized[of h i cfg] show ?thesis
      by (simp add: List.map_filter_simps tagged_def)
  qed
qed

lemma map_filter_items:
  "map ITEM (List.map_filter (\<lambda>(k, i). map_option (tagged k) (switch_type h i cfg)) kis) =
     map snd (filter (\<lambda>(k, i). recognized h i) kis)"
proof (induction kis)
  case Nil
  then show ?case by (simp add: List.map_filter_simps)
next
  case (Cons ki kis)
  obtain k i where ki: "ki = (k, i)" by (cases ki)
  show ?case
  proof (cases "switch_type h i cfg")
    case None
    with Cons ki switch_type_recognized[of h i cfg] show ?thesis
      by (simp add: List.map_filter_simps)
  next
    case (Some nv)
    then have "ITEM nv = i"
      by (auto simp: switch_type_def Let_def new_ValueBase_def new_ScriptValue_def split: if_splits)
    with Some Cons ki switch_type_recognized[of h i cfg] show ?thesis
      by (simp add: List.map_filter_simps tagged_def)
  qed
qed

lemma map_filter_provider:
  "v \<in> set (List.map_filter (\<lambda>(k, i). map_option (tagged k) (switch_type h i cfg)) kis) \<Longrightarrow>
     otherValueProvider v = Some Result_without_newValue"
  by (auto simp: List.map_filter_def tagged_def)

lemma distinct_ids: "distinct (map obj_id (toValueObjects h items cfg))"
proof -
  have "distinct (map fst (filter (\<lambda>(k, i). recognized h i) (enumerate 0 (filter_truthy items))))"
    by (rule distinct_map_filter) simp
  moreover have "map (\<lambda>(k, i). Num (int k)) kis = map (\<lambda>k. Num (int k)) (map fst kis)" for kis :: "(nat \<times> ValueWithName) list"
    by (induction kis) auto
  ultimately show ?thesis
    unfolding toValueObjects_enumerate map_filter_ids
    by (simp add: distinct_map inj_on_def)
qed

lemma otherValues_filter:
  assumes "v \<in> set (toValueObjects h items cfg)"
  shows "otherValues result v = filter (\<lambda>x. obj_id x \<noteq> obj_id v) result"
  using assms map_filter_provider[of v h cfg "enumerate 0 (filter_truthy items)"]
  by (simp add: toValueObjects_enumerate otherValues_def call_provider_def)

lemma filter_other_index:
  assumes "distinct (map f xs)" and "k < length xs"
  shows "filter (\<lambda>x. f x \<noteq> f (xs ! k)) xs = take k xs @ drop (Suc k) xs"
proof -
  have xs: "xs = take k xs @ xs ! k # drop (Suc k) xs"
    using assms(2) by (simp add: id_take_nth_drop)
  have d: "distinct (map f (take k xs) @ f (xs ! k) # map f (drop (Suc k) xs))"
    using assms(1) xs by (metis list.simps(9) map_append)
  then have 1: "\<forall>x \<in> set (take k xs). f x \<noteq> f (xs ! k)"
    and 2: "\<forall>x \<in> set (drop (Suc k) xs). f x \<noteq> f (xs ! k)"
    by (auto simp: image_iff)
  have "filter (\<lambda>x. f x \<noteq> f (xs ! k)) (take k xs @ xs ! k # drop (Suc k) xs) =
        take k xs @ drop (Suc k) xs"
    using 1 2 by (simp add: filter_id_conv)
  with xs show ?thesis by simp
qed

text \<open>
  C3, as the code has it: the id of a produced value is \<open>idx\<close>, the index of its
  definition in the list of definitions after the falsy entries have been dropped and
  before the entries with an unknown type tag are skipped; it is the position among
  the produced values only when no earlier entry was skipped. The produced values are
  the definitions with a known type tag, in their order. The ids differ from one
  another, and the \<open>otherValues\<close> of the produced value at position \<open>k\<close>, read on
  the produced list, are that list without position \<open>k\<close>: every other produced value,
  and not the value itself.
\<close>

theorem toValueObjects_ids_and_others:
  "map obj_id (toValueObjects h items cfg) =
     map (\<lambda>(k, i). Num (int k)) (filter (\<lambda>(k, i). recognized h i) (enumerate 0 (filter_truthy items))) \<and>
   map ITEM (toValueObjects h items cfg) =
     map snd (filter (\<lambda>(k, i). recognized h i) (enumerate 0 (filter_truthy items))) \<and>
   (\<forall>k < length (toValueObjects h items cfg).
      otherValues (toValueObjects h items cfg) (toValueObjects h items cfg ! k) =
        take k (toValueObjects h items cfg) @ drop (Suc k) (toValueObjects h items cfg))"
proof (intro conjI allI impI)
  show "map obj_id (toValueObjects h items cfg) =
     map (\<lambda>(k, i). Num (int k)) (filter (\<lambda>(k, i). recognized h i) (enumerate 0 (filter_truthy items)))"
    by (simp add: toValueObjects_enumerate map_filter_ids)
  show "map ITEM (toValueObjects h items cfg) =
     map snd (filter (\<lambda>(k, i). recognized h i) (enumerate 0 (filter_truthy items)))"
    by (simp add: toValueObjects_enumerate map_filter_items)
next
  fix k
  let ?R = "toValueObjects h items cfg"
  assume k: "k < length ?R"
  then have "otherValues ?R (?R ! k) = filter (\<lambda>x. obj_id x \<noteq> obj_id (?R ! k)) ?R"
    using otherValues_filter[of "?R ! k" h items cfg ?R] by simp
  also have "\<dots> = take k ?R @ drop (Suc k) ?R"
    using distinct_ids k by (rule filter_other_index)
  finally show "otherValues ?R (?R ! k) = take k ?R @ drop (Suc k) ?R" .
qed

lemma example_ids:
  "map (\<lambda>(k, i). Num (int k)) (filter (\<lambda>(k, i). recognized std_helpers i)
     (enumerate 0 (filter_truthy [Some (item_of ''a'' ''Static''), Some (item_of ''b'' ''ftp''), None,
        Some (item_of ''c'' ''env'')]))) = [Num 0, Num 2]"
  by code_simp

lemma example_length:
  "length (toValueObjects std_helpers [Some (item_of ''a'' ''Static''), Some (item_of ''b'' ''ftp''), None,
        Some (item_of ''c'' ''env'')] Undefined) = 2"
  by code_simp

theorem toValueObjects_ids_and_others_witness:
  "map obj_id (toValueObjects std_helpers
     [Some (item_of ''a'' ''Static''), Some (item_of ''b'' ''ftp''), None, Some (item_of ''c'' ''env'')]
     Undefined) = [Num 0, Num 2] \<and>
   otherValues
     (toValueObjects std_helpers
        [Some (item_of ''a'' ''Static''), Some (item_of ''b'' ''ftp''), None, Some (item_of ''c'' ''env'')]
        Undefined)
     (toValueObjects std_helpers
        [Some (item_of ''a'' ''Static''), Some (item_of ''b'' ''ftp''), None, Some (item_of ''c'' ''env'')]
        Undefined ! 1) =
   take 1 (toValueObjects std_helpers
        [Some (item_of ''a'' ''Static''), Some (item_of ''b'' ''ftp''), None, Some (item_of ''c'' ''env'')]
        Undefined) @
   drop (Suc 1) (toValueObjects std_helpers
        [Some (item_of ''a'' ''Static''), Some (item_of ''b'' ''ftp''), None, Some (item_of ''c'' ''env'')]
        Undefined)"
proof -
  note t = toValueObjects_ids_and_others[of std_helpers
      "[Some (item_of ''a'' ''Static''), Some (item_of ''b'' ''ftp''), None, Some (item_of ''c'' ''env'')]"
      Undefined]
  from t have ids: "map obj_id (toValueObjects std_helpers
     [Some (item_of ''a'' ''Static''), Some (item_of ''b'' ''ftp''), None, Some (item_of ''c'' ''env'')]
     Undefined) = [Num 0, Num 2]"
    by (simp only: example_ids)
  have "(1::nat) < 2" by simp
  with t show ?thesis
    unfolding example_length using ids by blast
qed


text \<open>
  The claim as the spec states it fails when an entry with an unknown type tag comes
  first: the one produced value has position 0 and id 1.
\<close>

theorem toValueObjects_id_position_counterexample:
  "map obj_id (toValueObjects std_helpers
     [Some (item_of ''b'' ''ftp''), Some (item_of ''c'' ''env'')] Undefined) = [Num 1] \<and>
   obj_id (toValueObjects std_helpers
     [Some (item_of ''b'' ''ftp''), Some (item_of ''c'' ''env'')] Undefined ! 0) \<noteq> Num 0"
  by code_simp


text \<open>
  C5: for every value \<open>v\<close> of the list that \<open>toValueObjects\<close> returns, the
  \<open>otherValues\<close> of \<open>v\<close>, read on that list, do not hold \<open>v\<close> and hold every
  other value of the list, those made before \<open>v\<close> and those made after it. (The
  provider cannot throw.)
\<close>

theorem otherValues_all_but_self:
  assumes "v \<in> set (toValueObjects h items cfg)"
  shows "v \<notin> set (otherValues (toValueObjects h items cfg) v) \<and>
         (\<forall>u \<in> set (toValueObjects h items cfg). u \<noteq> v \<longrightarrow> u \<in> set (otherValues (toValueObjects h items cfg) v))"
proof -
  let ?R = "toValueObjects h items cfg"
  have inj: "inj_on obj_id (set ?R)"
    using distinct_ids[of h items cfg] by (simp add: distinct_map)
  have "otherValues ?R v = filter (\<lambda>x. obj_id x \<noteq> obj_id v) ?R"
    using assms by (rule otherValues_filter)
  then show ?thesis
    using inj assms by (auto simp: inj_on_def)
qed

lemma example_member:
  "new_ValueBase EnvValue (Some (item_of ''c'' ''env''))
     \<lparr> obj_id := Num 2, otherValueProvider := Some Result_without_newValue \<rparr>
   \<in> set (toValueObjects std_helpers
     [Some (item_of ''a'' ''Static''), Some (item_of ''b'' ''ftp''), None, Some (item_of ''c'' ''env'')]
     Undefined)"
  by code_simp

lemma example_others:
  "otherValues (toValueObjects std_helpers
     [Some (item_of ''a'' ''Static''), Some (item_of ''b'' ''ftp''), None, Some (item_of ''c'' ''env'')]
     Undefined)
     (new_ValueBase EnvValue (Some (item_of ''c'' ''env''))
        \<lparr> obj_id := Num 2, otherValueProvider := Some Result_without_newValue \<rparr>) =
   [new_ValueBase StaticValue (Some (item_of ''a'' ''Static''))
        \<lparr> obj_id := Num 0, otherValueProvider := Some Result_without_newValue \<rparr>]"
  by code_simp

theorem otherValues_all_but_self_witness:
  "new_ValueBase EnvValue (Some (item_of ''c'' ''env''))
     \<lparr> obj_id := Num 2, otherValueProvider := Some Result_without_newValue \<rparr>
   \<notin> set (otherValues (toValueObjects std_helpers
     [Some (item_of ''a'' ''Static''), Some (item_of ''b'' ''ftp''), None, Some (item_of ''c'' ''env'')]
     Undefined)
     (new_ValueBase EnvValue (Some (item_of ''c'' ''env''))
        \<lparr> obj_id := Num 2, otherValueProvider := Some Result_without_newValue \<rparr>)) \<and>
   otherValues (toValueObjects std_helpers
     [Some (item_of ''a'' ''Static''), Some (item_of ''b'' ''ftp''), None, Some (item_of ''c'' ''env'')]
     Undefined)
     (new_ValueBase EnvValue (Some (item_of ''c'' ''env''))
        \<lparr> obj_id := Num 2, otherValueProvider := Some Result_without_newValue \<rparr>) =
   [new_ValueBase StaticValue (Some (item_of ''a'' ''Static''))
        \<lparr> obj_id := Num 0, otherValueProvider := Some Result_without_newValue \<rparr>]"
  using otherValues_all_but_self[OF example_member] example_others
  by simp


subsection \<open>EnvValue: the name and the variable that is read\<close>

lemma for_in_env_find:
  "for_in_env h myName process_env =
     (case find (\<lambda>(p, x). trim (toStringSafe h (Str p)) = myName) process_env of
        None \<Rightarrow> Undefined
      | Some (p, x) \<Rightarrow> Str x)"
  by (induction process_env) auto

text \<open>
  C7: the name of an Environment value is the configured name when the alias is empty
  (as \<open>isEmptyString\<close> judges it: no alias is set), and the alias otherwise. Its value
  does not depend on the alias: it is the value of the first variable of the
  environment whose trimmed name is equal, as a string and so with the case of every
  letter, to the trimmed configured name, and \<open>undefined\<close> when there is none.
\<close>

theorem EnvValue_name_and_value:
  "(isEmptyString h (item_alias (ITEM this)) \<longrightarrow> EnvValue_name h this = item_name (ITEM this)) \<and>
   (\<not> isEmptyString h (item_alias (ITEM this)) \<longrightarrow> EnvValue_name h this = item_alias (ITEM this)) \<and>
   EnvValue_value h process_env (this\<lparr> ITEM := (ITEM this)\<lparr> item_alias := a \<rparr> \<rparr>) =
     EnvValue_value h process_env this \<and>
   EnvValue_value h process_env this =
     (case find (\<lambda>(p, x). trim (toStringSafe h (Str p)) = trim (toStringSafe h (item_name (ITEM this))))
             process_env of
        None \<Rightarrow> Undefined
      | Some (p, x) \<Rightarrow> Str x)"
  by (simp add: EnvValue_name_def EnvValue_alias_def EnvValue_realName_def ValueBase_name_def
      EnvValue_value_def for_in_env_find)

lemma example_no_alias: "isEmptyString std_helpers Undefined"
  by code_simp

lemma example_with_alias: "\<not> isEmptyString std_helpers (Str ''home'')"
  by code_simp

lemma example_find:
  "(case find (\<lambda>(p, x). trim (toStringSafe std_helpers (Str p)) = trim (toStringSafe std_helpers (Str ''HOME'')))
      [(''home'', ''/tmp''), (''PATH'', ''/bin''), (''HOME'', ''/root'')] of
        None \<Rightarrow> Undefined
      | Some (p, x) \<Rightarrow> Str x) = Str ''/root''"
  by code_simp

theorem EnvValue_name_and_value_witness:
  "EnvValue_name std_helpers (new_ValueBase EnvValue (Some (env_item ''HOME'' Undefined))) = Str ''HOME'' \<and>
   EnvValue_name std_helpers (new_ValueBase EnvValue (Some (env_item ''HOME'' (Str ''home'')))) = Str ''home'' \<and>
   EnvValue_value std_helpers [(''home'', ''/tmp''), (''PATH'', ''/bin''), (''HOME'', ''/root'')]
     (new_ValueBase EnvValue (Some (env_item ''HOME'' (Str ''home'')))) = Str ''/root''"
  using EnvValue_name_and_value[of std_helpers "new_ValueBase EnvValue (Some (env_item ''HOME'' Undefined))"]
    EnvValue_name_and_value[of std_helpers "new_ValueBase EnvValue (Some (env_item ''HOME'' (Str ''home'')))"
      "[(''home'', ''/tmp''), (''PATH'', ''/bin''), (''HOME'', ''/root'')]"]
    example_no_alias example_with_alias example_find
  by (simp add: new_ValueBase_def env_item_def)

subsection \<open>ScriptValue: the state before the first reset\<close>

text \<open>
  C9: the two variables of the module hold \<open>undefined\<close> when the module is loaded.
  Take a Script value whose script is found and loaded and whose \<open>getValue\<close> reads
  \<open>args.state\<close> first, or writes it first. When \<open>scriptValueStates\<close> is still
  \<open>undefined\<close> at that moment, reading the value of the Script value throws a
  \<open>TypeError\<close>: the getter (or the setter) of \<open>args.state\<close> indexes
  \<open>undefined\<close>, and nothing catches. When \<open>scriptValueStates\<close> is what
  \<open>resetScriptStates\<close> sets, the read gives \<open>undefined\<close> and the script goes on.
\<close>

theorem ScriptValue_state_before_reset:
  assumes "replaceWithValues h otherVals (Str (toStringSafe h (item_script (ITEM me)))) w = (Inr script, w1)"
    and "\<not> isEmptyString h script"
    and "resolve_script pf script = Inr path"
    and "FS_existsSync pf path"
    and "loadModule pf path = Inr (Some scriptModule)"
    and "getValue scriptModule = Function (reads_state k) \<or>
         getValue scriptModule = Function (writes_state x k')"
  shows "globalScriptValueState at_module_load = None \<and> scriptValueStates at_module_load = None \<and>
         (scriptValueStates w1 = None \<longrightarrow>
            (\<exists>msg. ScriptValue_value pf h otherVals me w = (Inl (TypeError msg), w1))) \<and>
         (getValue scriptModule = Function (reads_state k) \<longrightarrow>
            scriptValueStates w1 = scriptValueStates (resetScriptStates w0) \<longrightarrow>
            ScriptValue_value pf h otherVals me w = k Undefined (make_args pf h otherVals me path) w1)"
  using assms
  by (auto simp: ScriptValue_value_def at_module_load_def reads_state_def writes_state_def
      make_args_def read_property_def write_property_def resetScriptStates_def Let_def)

lemma replaceWithValues_no_values:
  "replaceWithValues std_helpers [] (Str (toStringSafe std_helpers (Str s))) w = (Inr (Str s), w)"
  by (simp add: replaceWithValues_def isNullOrUndefined_def std_toStringSafe_Str)

lemma example_item_script: "item_script (ITEM (new_ScriptValue (Some (script_item s)) cfg)) = Str s"
  by (simp add: new_ScriptValue_def new_ValueBase_def script_item_def)

lemma example_not_empty:
  "\<not> isEmptyString std_helpers (Str ''a.js'')"
  "\<not> isEmptyString std_helpers (Str ''empty.js'')"
  "\<not> isEmptyString std_helpers (Str ''null.js'')"
  "\<not> isEmptyString std_helpers (Str ''missing.js'')"
  "isEmptyString std_helpers (Str ''  '')"
  by code_simp+

lemma example_resolve:
  "resolve_script (example_platform g) (Str ''a.js'') = Inr ''/ws/a.js''"
  "resolve_script (example_platform g) (Str ''empty.js'') = Inr ''/ws/empty.js''"
  "resolve_script (example_platform g) (Str ''null.js'') = Inr ''/ws/null.js''"
  "resolve_script (example_platform g) (Str ''missing.js'') = Inr ''/ws/missing.js''"
  by (simp_all add: resolve_script_def example_platform_def)

theorem ScriptValue_state_before_reset_witness:
  "(\<exists>msg. ScriptValue_value (example_platform (reads_state (\<lambda>s args w. (Inr s, w)))) std_helpers []
      (new_ScriptValue (Some (script_item ''a.js'')) Undefined) at_module_load =
        (Inl (TypeError msg), at_module_load)) \<and>
   (\<exists>msg. ScriptValue_value (example_platform (writes_state (Num 1) (\<lambda>args w. (Inr Null, w)))) std_helpers []
      (new_ScriptValue (Some (script_item ''a.js'')) Undefined) at_module_load =
        (Inl (TypeError msg), at_module_load)) \<and>
   ScriptValue_value (example_platform (reads_state (\<lambda>s args w. (Inr s, w)))) std_helpers []
      (new_ScriptValue (Some (script_item ''a.js'')) Undefined) (resetScriptStates at_module_load) =
        (Inr Undefined, resetScriptStates at_module_load)"
proof -
  let ?me = "new_ScriptValue (Some (script_item ''a.js'')) Undefined"
  let ?k = "\<lambda>(s::any) (args::process_state ScriptValueProviderArguments) (w::process_state). (Inr s :: error + any, w)"
  let ?k' = "\<lambda>(args::process_state ScriptValueProviderArguments) (w::process_state). (Inr Null :: error + any, w)"
  have sub: "replaceWithValues std_helpers [] (Str (toStringSafe std_helpers (item_script (ITEM ?me)))) w =
             (Inr (Str ''a.js''), w)" for w :: process_state
    unfolding example_item_script by (rule replaceWithValues_no_values)
  have ex: "FS_existsSync (example_platform g) ''/ws/a.js''"
    for g :: "process_state ScriptValueProviderArguments \<Rightarrow> process_state \<Rightarrow> (error + any) \<times> process_state"
    by (simp add: example_platform_def)
  have ld: "loadModule (example_platform g) ''/ws/a.js'' = Inr (Some \<lparr> getValue = Function g \<rparr>)"
    for g :: "process_state ScriptValueProviderArguments \<Rightarrow> process_state \<Rightarrow> (error + any) \<times> process_state"
    by (simp add: example_platform_def)
  have r: "getValue \<lparr> getValue = Function (reads_state ?k) \<rparr> = Function (reads_state ?k) \<or>
           getValue \<lparr> getValue = Function (reads_state ?k) \<rparr> = Function (writes_state (Num 1) ?k')"
    by simp
  have wr: "getValue \<lparr> getValue = Function (writes_state (Num 1) ?k') \<rparr> = Function (reads_state ?k) \<or>
            getValue \<lparr> getValue = Function (writes_state (Num 1) ?k') \<rparr> =
              Function (writes_state (Num 1) ?k')"
    by simp
  note a = ScriptValue_state_before_reset[OF sub example_not_empty(1) example_resolve(1) ex ld r,
      of at_module_load at_module_load]
  note b = ScriptValue_state_before_reset[OF sub example_not_empty(1) example_resolve(1) ex ld wr,
      of at_module_load at_module_load]
  note c = ScriptValue_state_before_reset[OF sub example_not_empty(1) example_resolve(1) ex ld r,
      of "resetScriptStates at_module_load" at_module_load]
  from a have 1: "\<exists>msg. ScriptValue_value (example_platform (reads_state ?k)) std_helpers [] ?me at_module_load =
        (Inl (TypeError msg), at_module_load)"
    by (simp add: at_module_load_def)
  from b have 2: "\<exists>msg. ScriptValue_value (example_platform (writes_state (Num 1) ?k')) std_helpers [] ?me at_module_load =
        (Inl (TypeError msg), at_module_load)"
    by (simp add: at_module_load_def)
  from c have 3: "ScriptValue_value (example_platform (reads_state ?k)) std_helpers [] ?me (resetScriptStates at_module_load) =
        (Inr Undefined, resetScriptStates at_module_load)"
    by simp
  from 1 2 3 show ?thesis by blast
qed


subsection \<open>ScriptValue: no script to run\<close>

lemma resolve_script_no_root:
  assumes "\<not> Path_isAbsolute pf s" and "\<forall>root. workspace_rootPath pf \<noteq> Str root"
  shows "\<exists>msg. resolve_script pf (Str s) = Inl (TypeError msg)"
  using assms by (cases "workspace_rootPath pf") (simp_all add: resolve_script_def)

text \<open>
  C10, as the code has it. Let \<open>script\<close> be the path of the script after the
  placeholders have been replaced. When \<open>script\<close> is empty, or the path can be
  resolved and the file at the resolved path does not exist, or what is loaded from it
  is falsy, or the \<open>getValue\<close> of the module is falsy (as it is when the module has
  no such export), the value of the Script value is \<open>undefined\<close>: nothing is thrown,
  and no function of a module runs (the state is the one after the replacement of the
  placeholders). A \<open>getValue\<close> that is truthy and not a function is called all the
  same: the value of the Script value throws a \<open>TypeError\<close>. And when \<open>script\<close> is
  not empty, not absolute, and the workspace has no root, \<open>Path.join\<close> throws a
  \<open>TypeError\<close> before the file is looked for, whether it exists or not.
\<close>

theorem ScriptValue_value_undefined:
  assumes "replaceWithValues h otherVals (Str (toStringSafe h (item_script (ITEM me)))) w = (Inr script, w1)"
  shows "(isEmptyString h script \<or>
          (\<exists>path. resolve_script pf script = Inr path \<and>
             (\<not> FS_existsSync pf path \<or> loadModule pf path = Inr None \<or>
              (\<exists>scriptModule x. loadModule pf path = Inr (Some scriptModule) \<and>
                 getValue scriptModule = NotFunction x \<and> \<not> truthy x))) \<longrightarrow>
            ScriptValue_value pf h otherVals me w = (Inr Undefined, w1)) \<and>
         (\<not> isEmptyString h script \<longrightarrow> resolve_script pf script = Inr path \<longrightarrow>
          FS_existsSync pf path \<longrightarrow> loadModule pf path = Inr (Some scriptModule) \<longrightarrow>
          getValue scriptModule = NotFunction x \<longrightarrow> truthy x \<longrightarrow>
            (\<exists>msg. ScriptValue_value pf h otherVals me w = (Inl (TypeError msg), w1))) \<and>
         (\<not> isEmptyString h script \<longrightarrow> script = Str s \<longrightarrow> \<not> Path_isAbsolute pf s \<longrightarrow>
          (\<forall>root. workspace_rootPath pf \<noteq> Str root) \<longrightarrow>
            (\<exists>msg. ScriptValue_value pf h otherVals me w = (Inl (TypeError msg), w1)))"
proof (intro conjI impI)
  assume "isEmptyString h script \<or>
          (\<exists>path. resolve_script pf script = Inr path \<and>
             (\<not> FS_existsSync pf path \<or> loadModule pf path = Inr None \<or>
              (\<exists>scriptModule x. loadModule pf path = Inr (Some scriptModule) \<and>
                 getValue scriptModule = NotFunction x \<and> \<not> truthy x)))"
  with assms show "ScriptValue_value pf h otherVals me w = (Inr Undefined, w1)"
    by (auto simp: ScriptValue_value_def Let_def)
next
  assume "\<not> isEmptyString h script" "resolve_script pf script = Inr path" "FS_existsSync pf path"
    "loadModule pf path = Inr (Some scriptModule)" "getValue scriptModule = NotFunction x" "truthy x"
  with assms show "\<exists>msg. ScriptValue_value pf h otherVals me w = (Inl (TypeError msg), w1)"
    by (simp add: ScriptValue_value_def Let_def)
next
  assume ne: "\<not> isEmptyString h script" and s: "script = Str s" and "\<not> Path_isAbsolute pf s"
    and "\<forall>root. workspace_rootPath pf \<noteq> Str root"
  then obtain msg where "resolve_script pf (Str s) = Inl (TypeError msg)"
    using resolve_script_no_root by blast
  with assms ne s show "\<exists>msg. ScriptValue_value pf h otherVals me w = (Inl (TypeError msg), w1)"
    by (simp add: ScriptValue_value_def Let_def)
qed

lemma example_not_empty_five: "\<not> isEmptyString std_helpers (Str ''five.js'')"
  by code_simp

lemma example_resolve_five:
  "resolve_script (example_platform g) (Str ''five.js'') = Inr ''/ws/five.js''"
  by (simp add: resolve_script_def example_platform_def)

theorem ScriptValue_value_undefined_witness:
  "ScriptValue_value (example_platform (\<lambda>args w. (Inl (Thrown Null), w))) std_helpers []
      (new_ScriptValue (Some (script_item ''  '')) Undefined) at_module_load = (Inr Undefined, at_module_load) \<and>
   ScriptValue_value (example_platform (\<lambda>args w. (Inl (Thrown Null), w))) std_helpers []
      (new_ScriptValue (Some (script_item ''missing.js'')) Undefined) at_module_load = (Inr Undefined, at_module_load) \<and>
   ScriptValue_value (example_platform (\<lambda>args w. (Inl (Thrown Null), w))) std_helpers []
      (new_ScriptValue (Some (script_item ''null.js'')) Undefined) at_module_load = (Inr Undefined, at_module_load) \<and>
   ScriptValue_value (example_platform (\<lambda>args w. (Inl (Thrown Null), w))) std_helpers []
      (new_ScriptValue (Some (script_item ''empty.js'')) Undefined) at_module_load = (Inr Undefined, at_module_load) \<and>
   (\<exists>msg. ScriptValue_value (example_platform (\<lambda>args w. (Inl (Thrown Null), w))) std_helpers []
      (new_ScriptValue (Some (script_item ''five.js'')) Undefined) at_module_load =
        (Inl (TypeError msg), at_module_load)) \<and>
   (\<exists>msg. ScriptValue_value (example_platform_no_root (\<lambda>args w. (Inl (Thrown Null), w))) std_helpers []
      (new_ScriptValue (Some (script_item ''missing.js'')) Undefined) at_module_load =
        (Inl (TypeError msg), at_module_load))"
proof -
  let ?g = "\<lambda>(args::process_state ScriptValueProviderArguments) (w::process_state).
               (Inl (Thrown Null) :: error + any, w)"
  let ?pf = "example_platform ?g"
  let ?pn = "example_platform_no_root ?g"
  have sub: "replaceWithValues std_helpers []
               (Str (toStringSafe std_helpers (item_script (ITEM (new_ScriptValue (Some (script_item s)) Undefined)))))
               at_module_load = (Inr (Str s), at_module_load)" for s
    unfolding example_item_script by (rule replaceWithValues_no_values)
  note t = ScriptValue_value_undefined[OF sub]
  have 1: "ScriptValue_value ?pf std_helpers [] (new_ScriptValue (Some (script_item ''  '')) Undefined)
             at_module_load = (Inr Undefined, at_module_load)"
    using t[of "''  ''" ?pf] example_not_empty(5) by blast
  have "resolve_script ?pf (Str ''missing.js'') = Inr ''/ws/missing.js'' \<and>
        \<not> FS_existsSync ?pf ''/ws/missing.js''"
    by (simp add: example_resolve) (simp add: example_platform_def)
  then have 2: "ScriptValue_value ?pf std_helpers [] (new_ScriptValue (Some (script_item ''missing.js'')) Undefined)
             at_module_load = (Inr Undefined, at_module_load)"
    using t[of "''missing.js''" ?pf] by blast
  have "resolve_script ?pf (Str ''null.js'') = Inr ''/ws/null.js'' \<and>
        loadModule ?pf ''/ws/null.js'' = Inr None"
    by (simp add: example_resolve) (simp add: example_platform_def)
  then have 3: "ScriptValue_value ?pf std_helpers [] (new_ScriptValue (Some (script_item ''null.js'')) Undefined)
             at_module_load = (Inr Undefined, at_module_load)"
    using t[of "''null.js''" ?pf] by blast
  have "resolve_script ?pf (Str ''empty.js'') = Inr ''/ws/empty.js'' \<and>
        loadModule ?pf ''/ws/empty.js'' = Inr (Some \<lparr> getValue = NotFunction Undefined \<rparr>) \<and>
        getValue \<lparr> getValue = NotFunction Undefined :: process_state exported \<rparr> = NotFunction Undefined \<and>
        \<not> truthy Undefined"
    by (simp add: example_resolve) (simp add: example_platform_def)
  then have 4: "ScriptValue_value ?pf std_helpers [] (new_ScriptValue (Some (script_item ''empty.js'')) Undefined)
             at_module_load = (Inr Undefined, at_module_load)"
    using t[of "''empty.js''" ?pf] by blast
  have five: "FS_existsSync ?pf ''/ws/five.js''"
    "loadModule ?pf ''/ws/five.js'' = Inr (Some \<lparr> getValue = NotFunction (Num 5) \<rparr>)"
    "getValue \<lparr> getValue = NotFunction (Num 5) :: process_state exported \<rparr> = NotFunction (Num 5)"
    "truthy (Num 5)"
    by (simp_all add: example_platform_def)
  have 5: "\<exists>msg. ScriptValue_value ?pf std_helpers [] (new_ScriptValue (Some (script_item ''five.js'')) Undefined)
             at_module_load = (Inl (TypeError msg), at_module_load)"
    using t[of "''five.js''" ?pf "''/ws/five.js''" "\<lparr> getValue = NotFunction (Num 5) \<rparr>" "Num 5"]
      example_not_empty_five example_resolve_five[of ?g] five by blast
  have nr: "\<not> Path_isAbsolute ?pn ''missing.js''" "\<forall>root. workspace_rootPath ?pn \<noteq> Str root"
    by (simp_all add: example_platform_no_root_def example_platform_def)
  have 6: "\<exists>msg. ScriptValue_value ?pn std_helpers [] (new_ScriptValue (Some (script_item ''missing.js'')) Undefined)
             at_module_load = (Inl (TypeError msg), at_module_load)"
    using t[of "''missing.js''" ?pn _ _ _ "''missing.js''"] example_not_empty(4) nr by blast
  from 1 2 3 4 5 6 show ?thesis by blast
qed

text \<open>
  The claim as the spec states it fails in two ways. A module that exports the
  number 5 as \<open>getValue\<close> exports no function, and reading the value throws. A script
  \<open>missing.js\<close> that does not exist, with no folder open, makes \<open>Path.join\<close>
  throw.
\<close>

theorem ScriptValue_value_throws_counterexample:
  "fst (ScriptValue_value (example_platform (\<lambda>args w. (Inr Null, w))) std_helpers []
      (new_ScriptValue (Some (script_item ''five.js'')) Undefined) at_module_load) =
     Inl (TypeError ''scriptModule.getValue is not a function'') \<and>
   fst (ScriptValue_value (example_platform_no_root (\<lambda>args w. (Inr Null, w))) std_helpers []
      (new_ScriptValue (Some (script_item ''missing.js'')) Undefined) at_module_load) =
     Inl (TypeError ''Path must be a string'')"
  by (simp add: ScriptValue_value_def Let_def example_item_script replaceWithValues_no_values
      example_not_empty example_not_empty_five example_resolve_five resolve_script_def
      example_platform_def example_platform_no_root_def)

subsection \<open>The HTTP plugin: the placeholders of an upload\<close>

lemma of_char_dollar: "(of_char c :: nat) = 36 \<longleftrightarrow> c = CHR ''$''"
proof
  assume "(of_char c :: nat) = 36"
  then have "(of_char c :: nat) = of_char (CHR ''$'')" by simp
  then show "c = CHR ''$''" by (simp only: of_char_eq_iff)
qed simp

lemma Canonicalize_dollar: "Canonicalize c = 36 \<longleftrightarrow> c = CHR ''$''"
proof -
  have "(of_char c :: nat) < 256" by (rule nat_of_char_less_256)
  then show ?thesis
    using of_char_dollar[of c] by (auto simp: Canonicalize_def Let_def)
qed

lemma Canonicalize_dollar_char: "Canonicalize (CHR ''$'') = 36"
  by (simp add: Canonicalize_def)


lemma search_token_no_dollar:
  "CHR ''$'' \<notin> set s \<Longrightarrow> search_token (CHR ''$'' # pat) s = None"
  by (induction s) (auto simp: Canonicalize_dollar Canonicalize_dollar_char)


















lemma matched_no_dollar_tail:
  "CHR ''$'' \<notin> set n \<Longrightarrow> matched n = CHR ''$'' # (CHR ''{'' # n @ ''}'') \<and> CHR ''$'' \<notin> set (CHR ''{'' # n @ ''}'')"
  by (simp add: matched_def)











lemma same_token_refl: "same_token a a"
  by (simp add: same_token_def)

































end
